theory Spec2Isabelle
  imports Complex_Main
begin

section \<open>Numbers\<close>

text \<open>
  The source computes with JavaScript numbers, which are IEEE 754 doubles. A number is a
  finite value, \<open>Infinity\<close> (the start value of the running minimum in
  \<open>calculateRouteCompliance\<close>) or \<open>NaN\<close> (the square root of a negative argument in
  \<open>haversineDistance\<close>), and \<open>NaN\<close> spreads through \<open>Math.min\<close>, \<open>Math.max\<close>,
  \<open>+\<close>, \<open>/\<close> and \<open>Math.round\<close> and fails every comparison.

  The haversine distance of the server and \<open>interpolateRoute_f64\<close> are modelled in
  binary64, every operation rounded (\<open>f64\<close> below): there rounding decides what the
  program returns. The planar projection onto a segment, the percentage and the client's
  stop detector are modelled in exact real arithmetic.
  A parameter with a default value is an \<open>option\<close>: \<open>None\<close> is the call that leaves
  the argument out.
\<close>

datatype extnum = Fin real | Infinity | NaN

fun Math_min :: "extnum \<Rightarrow> extnum \<Rightarrow> extnum" where
  "Math_min NaN d = NaN"
| "Math_min m NaN = NaN"
| "Math_min Infinity d = d"
| "Math_min (Fin m) Infinity = Fin m"
| "Math_min (Fin m) (Fin d) = Fin (min m d)"

fun Math_max :: "extnum \<Rightarrow> extnum \<Rightarrow> extnum" where
  "Math_max NaN b = NaN"
| "Math_max a NaN = NaN"
| "Math_max (Fin a) (Fin b) = Fin (max a b)"
| "Math_max _ _ = Infinity"

fun ext_add :: "extnum \<Rightarrow> extnum \<Rightarrow> extnum" where
  \<comment> \<open>\<open>totalDeviation += minDistance\<close>; neither operand is ever \<open>-Infinity\<close>\<close>
  "ext_add NaN b = NaN"
| "ext_add a NaN = NaN"
| "ext_add (Fin a) (Fin b) = Fin (a + b)"
| "ext_add _ _ = Infinity"

fun ext_le :: "extnum \<Rightarrow> real \<Rightarrow> bool" where
  \<comment> \<open>\<open>minDistance <= toleranceMeters\<close>\<close>
  "ext_le (Fin a) b = (a \<le> b)"
| "ext_le Infinity b = False"
| "ext_le NaN b = False"

fun strict_equal :: "extnum \<Rightarrow> extnum \<Rightarrow> bool" where
  \<comment> \<open>the comparison \<open>==\<close> of two numbers: \<open>NaN\<close> is equal to nothing, itself included\<close>
  "strict_equal NaN b = False"
| "strict_equal a NaN = False"
| "strict_equal a b = (a = b)"

definition Math_round :: "real \<Rightarrow> real" where
  \<comment> \<open>the nearest integer, a tie going up\<close>
  "Math_round x = of_int \<lfloor>x + 1 / 2\<rfloor>"

fun ext_round :: "extnum \<Rightarrow> extnum" where
  "ext_round (Fin a) = Fin (Math_round a)"
| "ext_round Infinity = Infinity"
| "ext_round NaN = NaN"

fun ext_div_length :: "extnum \<Rightarrow> nat \<Rightarrow> extnum" where
  \<comment> \<open>division by the length of a list that is not empty\<close>
  "ext_div_length (Fin a) n = Fin (a / real n)"
| "ext_div_length Infinity n = Infinity"
| "ext_div_length NaN n = NaN"

definition atan2 :: "real \<Rightarrow> real \<Rightarrow> real" where
  \<comment> \<open>\<open>Math.atan2(y, x)\<close>: the angle of the point \<open>(x, y)\<close>\<close>
  "atan2 y x =
     (if 0 < x then arctan (y / x)
      else if x < 0 then (if 0 \<le> y then arctan (y / x) + pi else arctan (y / x) - pi)
      else if 0 < y then pi / 2
      else if y < 0 then - (pi / 2)
      else 0)"

subsection \<open>Rounding to binary64\<close>

text \<open>
  \<open>f64 x\<close> is the double nearest to the real \<open>x\<close>, a tie going to the even
  significand (IEEE 754 round-to-nearest-even): 53 significant bits, the exponent not below
  \<open>-1022\<close> (below it the spacing stays \<open>2 powi -1074\<close>, the subnormal numbers).
  Overflow to \<open>Infinity\<close> is left out: coordinates and their differences are far below
  \<open>2 ^ 1024\<close>. An arithmetic operation of the source on doubles is the exact operation
  followed by \<open>f64\<close>.
\<close>

definition round_half_even :: "real \<Rightarrow> int" where
  "round_half_even y =
     (let f = \<lfloor>y\<rfloor>; r = y - of_int f
      in if r < 1 / 2 then f else if 1 / 2 < r then f + 1 else if even f then f else f + 1)"

definition f64_exponent :: "real \<Rightarrow> int" where
  "f64_exponent x = max \<lfloor>log 2 \<bar>x\<bar>\<rfloor> (- 1022)"

definition f64_ulp :: "real \<Rightarrow> real" where
  "f64_ulp x = 2 powi (f64_exponent x - 52)"

definition f64 :: "real \<Rightarrow> real" where
  "f64 x = (if x = 0 then 0 else of_int (round_half_even (x / f64_ulp x)) * f64_ulp x)"

text \<open>
  \<open>Math.PI\<close> is the double nearest to \<open>\<pi>\<close>. \<open>Math.sqrt\<close> is correctly rounded by
  IEEE 754 and is \<open>NaN\<close> on a negative argument. \<open>Math.sin\<close>, \<open>Math.cos\<close> and
  \<open>Math.atan2\<close> belong to the runtime; they are taken as correctly rounded.
\<close>

definition Math_PI :: real where
  "Math_PI = 884279719003555 / 2 ^ 48"

definition Math_sin :: "real \<Rightarrow> real" where
  "Math_sin x = f64 (sin x)"

definition Math_cos :: "real \<Rightarrow> real" where
  "Math_cos x = f64 (cos x)"

definition Math_atan2 :: "real \<Rightarrow> real \<Rightarrow> real" where
  "Math_atan2 y x = f64 (atan2 y x)"

definition Math_sqrt :: "real \<Rightarrow> extnum" where
  "Math_sqrt x = (if x < 0 then NaN else Fin (f64 (sqrt x)))"

section \<open>Server: route-compliance.ts\<close>

record Coordinate =
  lat :: real
  lng :: real

definition toRadians :: "real \<Rightarrow> real" where
  "toRadians degrees = f64 (degrees * f64 (Math_PI / 180))"

definition haversine_a :: "Coordinate \<Rightarrow> Coordinate \<Rightarrow> real" where
  \<comment> \<open>the local \<open>a\<close> of \<open>haversineDistance\<close>; the products associate to the left\<close>
  "haversine_a coord1 coord2 =
     (let lat1 = toRadians (lat coord1);
          lat2 = toRadians (lat coord2);
          deltaLat = toRadians (f64 (lat coord2 - lat coord1));
          deltaLng = toRadians (f64 (lng coord2 - lng coord1))
      in f64 (f64 (Math_sin (f64 (deltaLat / 2)) * Math_sin (f64 (deltaLat / 2))) +
              f64 (f64 (f64 (Math_cos lat1 * Math_cos lat2) * Math_sin (f64 (deltaLng / 2))) *
                   Math_sin (f64 (deltaLng / 2)))))"

definition haversineDistance :: "Coordinate \<Rightarrow> Coordinate \<Rightarrow> extnum" where
  \<comment> \<open>\<open>NaN\<close> as soon as one of the two square roots is \<open>NaN\<close>\<close>
  "haversineDistance coord1 coord2 =
     (let R = 6371000;
          a = haversine_a coord1 coord2
      in case (Math_sqrt a, Math_sqrt (f64 (1 - a))) of
           (Fin y, Fin x) \<Rightarrow> (let c = f64 (2 * Math_atan2 y x) in Fin (f64 (R * c)))
         | _ \<Rightarrow> NaN)"

definition waypoint :: "Coordinate \<Rightarrow> Coordinate \<Rightarrow> nat \<Rightarrow> nat \<Rightarrow> Coordinate" where
  \<comment> \<open>the body of the loop of \<open>interpolateRoute\<close> at index \<open>i\<close>\<close>
  "waypoint start end numPoints i =
     (let t = real i / real numPoints
      in \<lparr>lat = lat start + t * (lat end - lat start),
          lng = lng start + t * (lng end - lng start)\<rparr>)"

definition interpolateRoute :: "Coordinate \<Rightarrow> Coordinate \<Rightarrow> nat option \<Rightarrow> Coordinate list" where
  \<comment> \<open>\<open>numPoints: number = 10\<close>; the loop runs \<open>i = 0, ..., numPoints\<close>.
      For \<open>numPoints = 0\<close> the source divides \<open>0 / 0\<close> and its one waypoint is NaN, which
      no \<open>Coordinate\<close> of this model is: the definition stands for \<open>numPoints \<ge> 1\<close>.\<close>
  "interpolateRoute start end numPoints_arg =
     (let numPoints = (case numPoints_arg of None \<Rightarrow> 10 | Some n \<Rightarrow> n)
      in map (waypoint start end numPoints) [0..<numPoints + 1])"

text \<open>
  The same loop with every operation rounded to binary64, as the runtime computes it. The
  counter \<open>i\<close> and \<open>numPoints\<close> are integers below \<open>2 ^ 53\<close>, which are doubles.
\<close>

definition waypoint_f64 :: "Coordinate \<Rightarrow> Coordinate \<Rightarrow> nat \<Rightarrow> nat \<Rightarrow> Coordinate" where
  "waypoint_f64 start end numPoints i =
     (let t = f64 (real i / real numPoints)
      in \<lparr>lat = f64 (lat start + f64 (t * f64 (lat end - lat start))),
          lng = f64 (lng start + f64 (t * f64 (lng end - lng start)))\<rparr>)"

definition interpolateRoute_f64 :: "Coordinate \<Rightarrow> Coordinate \<Rightarrow> nat option \<Rightarrow> Coordinate list" where
  "interpolateRoute_f64 start end numPoints_arg =
     (let numPoints = (case numPoints_arg of None \<Rightarrow> 10 | Some n \<Rightarrow> n)
      in map (waypoint_f64 start end numPoints) [0..<numPoints + 1])"

definition lineLength :: "Coordinate \<Rightarrow> Coordinate \<Rightarrow> real" where
  "lineLength lineStart lineEnd =
     (let lineLat = lat lineEnd - lat lineStart;
          lineLng = lng lineEnd - lng lineStart
      in sqrt (lineLat * lineLat + lineLng * lineLng))"

definition projection_t :: "Coordinate \<Rightarrow> Coordinate \<Rightarrow> Coordinate \<Rightarrow> real" where
  \<comment> \<open>the local \<open>t\<close> of \<open>pointToLineSegmentDistance\<close>, computed when \<open>lineLength\<close> is not 0\<close>
  "projection_t point lineStart lineEnd =
     (let lineLat = lat lineEnd - lat lineStart;
          lineLng = lng lineEnd - lng lineStart
      in max 0 (min 1
           (((lat point - lat lineStart) * lineLat + (lng point - lng lineStart) * lineLng) /
            (lineLength lineStart lineEnd * lineLength lineStart lineEnd))))"

definition projection :: "Coordinate \<Rightarrow> Coordinate \<Rightarrow> Coordinate \<Rightarrow> Coordinate" where
  "projection point lineStart lineEnd =
     (let lineLat = lat lineEnd - lat lineStart;
          lineLng = lng lineEnd - lng lineStart;
          t = projection_t point lineStart lineEnd
      in \<lparr>lat = lat lineStart + t * lineLat, lng = lng lineStart + t * lineLng\<rparr>)"

definition pointToLineSegmentDistance :: "Coordinate \<Rightarrow> Coordinate \<Rightarrow> Coordinate \<Rightarrow> extnum" where
  "pointToLineSegmentDistance point lineStart lineEnd =
     (if lineLength lineStart lineEnd = 0 then haversineDistance point lineStart
      else haversineDistance point (projection point lineStart lineEnd))"

fun minDistance :: "Coordinate \<Rightarrow> Coordinate list \<Rightarrow> extnum \<Rightarrow> extnum" where
  \<comment> \<open>the inner loop of \<open>calculateRouteCompliance\<close> over the pairs
      \<open>expectedRoute[i], expectedRoute[i + 1]\<close>, from the running minimum given\<close>
  "minDistance actualPoint (a # b # rest) m =
     minDistance actualPoint (b # rest) (Math_min m (pointToLineSegmentDistance actualPoint a b))"
| "minDistance actualPoint _ m = m"

fun pathLoop :: "Coordinate list \<Rightarrow> real \<Rightarrow> Coordinate list \<Rightarrow> nat \<times> extnum \<times> extnum
    \<Rightarrow> nat \<times> extnum \<times> extnum" where
  \<comment> \<open>the outer loop; the state is \<open>(compliantPoints, totalDeviation, maxDeviation)\<close>\<close>
  "pathLoop expectedRoute toleranceMeters [] s = s"
| "pathLoop expectedRoute toleranceMeters (actualPoint # rest) (compliantPoints, totalDeviation, maxDev) =
     (let m = minDistance actualPoint expectedRoute Infinity
      in pathLoop expectedRoute toleranceMeters rest
           (if ext_le m toleranceMeters then compliantPoints + 1 else compliantPoints,
            ext_add totalDeviation m,
            Math_max maxDev m))"

record ComplianceResult =
  compliancePercent :: real
  maxDeviation :: extnum
  averageDeviation :: extnum

definition calculateRouteCompliance ::
    "Coordinate list \<Rightarrow> Coordinate \<Rightarrow> Coordinate \<Rightarrow> real option \<Rightarrow> ComplianceResult" where
  \<comment> \<open>\<open>toleranceMeters: number = 500\<close>\<close>
  "calculateRouteCompliance actualPath expectedStart expectedEnd toleranceMeters_arg =
     (let toleranceMeters = (case toleranceMeters_arg of None \<Rightarrow> 500 | Some x \<Rightarrow> x)
      in if length actualPath = 0
         then \<lparr>compliancePercent = 100, maxDeviation = Fin 0, averageDeviation = Fin 0\<rparr>
         else
           (let expectedRoute = interpolateRoute expectedStart expectedEnd (Some 20);
                (compliantPoints, totalDeviation, maxDev) =
                   pathLoop expectedRoute toleranceMeters actualPath (0, Fin 0, Fin 0);
                percent = (real compliantPoints / real (length actualPath)) * 100;
                average = ext_div_length totalDeviation (length actualPath)
            in \<lparr>compliancePercent = Math_round (percent * 10) / 10,
                maxDeviation = ext_round maxDev,
                averageDeviation = ext_round average\<rparr>))"

section \<open>Client: route-confrontation-map.tsx\<close>

text \<open>
  A \<open>GpsRoutePoint\<close> carries more fields in the schema (speed, heading, altitude,
  accuracy); the code below reads these three only. \<open>timestamp\<close> is the value of
  \<open>new Date(p.timestamp).getTime()\<close>, in milliseconds.
\<close>

record GpsRoutePoint =
  latitude :: real
  longitude :: real
  timestamp :: int

record UnscheduledStop =
  stop_latitude :: real
  stop_longitude :: real
  startTime :: int
  duration :: real

definition calculateDistance_a :: "real \<Rightarrow> real \<Rightarrow> real \<Rightarrow> real \<Rightarrow> real" where
  \<comment> \<open>the local \<open>a\<close> of \<open>calculateDistance\<close>\<close>
  "calculateDistance_a lat1 lng1 lat2 lng2 =
     (let rad = pi / 180;
          dLat = (lat2 - lat1) * rad;
          dLng = (lng2 - lng1) * rad
      in (sin (dLat / 2))\<^sup>2 + cos (lat1 * rad) * cos (lat2 * rad) * (sin (dLng / 2))\<^sup>2)"

definition calculateDistance :: "real \<Rightarrow> real \<Rightarrow> real \<Rightarrow> real \<Rightarrow> real" where
  "calculateDistance lat1 lng1 lat2 lng2 =
     (let R = 6371000;
          a = calculateDistance_a lat1 lng1 lat2 lng2
      in R * 2 * atan2 (sqrt a) (sqrt (1 - a)))"

definition isAtDestination :: "GpsRoutePoint \<Rightarrow> real option \<Rightarrow> real option \<Rightarrow> bool" where
  \<comment> \<open>\<open>destinationLat && destinationLng && calculateDistance(...) < 200\<close>, read as a
      condition: \<open>null\<close>, \<open>undefined\<close> and the number 0 are falsy\<close>
  "isAtDestination stopStart destinationLat destinationLng =
     (case destinationLat of
        None \<Rightarrow> False
      | Some dLat \<Rightarrow>
          dLat \<noteq> 0 \<and>
          (case destinationLng of
             None \<Rightarrow> False
           | Some dLng \<Rightarrow>
               dLng \<noteq> 0 \<and>
               calculateDistance (latitude stopStart) (longitude stopStart) dLat dLng < 200))"

definition closeRun :: "real option \<Rightarrow> real option \<Rightarrow> real \<Rightarrow>
    GpsRoutePoint option \<Rightarrow> GpsRoutePoint list \<Rightarrow> UnscheduledStop list \<Rightarrow> UnscheduledStop list" where
  \<comment> \<open>the block \<open>if (stopStart && stopPoints.length > 1) { ... }\<close>, which the source has
      twice with the same text: where a run ends inside the loop, and after the loop\<close>
  "closeRun destinationLat destinationLng stopThresholdMinutes stopStart stopPoints stops =
     (case stopStart of
        None \<Rightarrow> stops
      | Some start \<Rightarrow>
          if length stopPoints > 1 then
            (let lastPoint = last stopPoints;
                 dur = real_of_int (timestamp lastPoint - timestamp start) / 60000
             in if dur \<ge> stopThresholdMinutes then
                  (if \<not> isAtDestination start destinationLat destinationLng then
                     stops @ [\<lparr>stop_latitude = latitude start,
                                stop_longitude = longitude start,
                                startTime = timestamp start,
                                duration = Math_round dur\<rparr>]
                   else stops)
                else stops)
          else stops)"

definition stopStep :: "real option \<Rightarrow> real option \<Rightarrow> real \<Rightarrow> real \<Rightarrow>
    GpsRoutePoint \<Rightarrow> GpsRoutePoint \<Rightarrow>
    UnscheduledStop list \<times> GpsRoutePoint option \<times> GpsRoutePoint list \<Rightarrow>
    UnscheduledStop list \<times> GpsRoutePoint option \<times> GpsRoutePoint list" where
  \<comment> \<open>one round of the loop, on \<open>prev = gpsPoints[i - 1]\<close> and \<open>cur = gpsPoints[i]\<close> (the source's curr);
      the state is \<open>(stops, stopStart, stopPoints)\<close>\<close>
  "stopStep destinationLat destinationLng stopThresholdMinutes distanceThresholdMeters prev cur st =
     (case st of (stops, stopStart, stopPoints) \<Rightarrow>
        (let distance = calculateDistance (latitude prev) (longitude prev) (latitude cur) (longitude cur)
         in if distance < distanceThresholdMeters then
              (case stopStart of
                 None \<Rightarrow> (stops, Some prev, [prev] @ [cur])
               | Some start \<Rightarrow> (stops, Some start, stopPoints @ [cur]))
            else
              (closeRun destinationLat destinationLng stopThresholdMinutes stopStart stopPoints stops,
               None, [])))"

fun stopLoop :: "real option \<Rightarrow> real option \<Rightarrow> real \<Rightarrow> real \<Rightarrow> GpsRoutePoint list \<Rightarrow>
    UnscheduledStop list \<times> GpsRoutePoint option \<times> GpsRoutePoint list \<Rightarrow>
    UnscheduledStop list \<times> GpsRoutePoint option \<times> GpsRoutePoint list" where
  "stopLoop dLat dLng thr dthr (prev # cur # rest) st =
     stopLoop dLat dLng thr dthr (cur # rest) (stopStep dLat dLng thr dthr prev cur st)"
| "stopLoop dLat dLng thr dthr _ st = st"

definition detectUnscheduledStops :: "GpsRoutePoint list \<Rightarrow> real option \<Rightarrow> real option \<Rightarrow>
    real option \<Rightarrow> real option \<Rightarrow> UnscheduledStop list" where
  \<comment> \<open>\<open>stopThresholdMinutes: number = 10\<close>, \<open>distanceThresholdMeters: number = 100\<close>\<close>
  "detectUnscheduledStops gpsPoints destinationLat destinationLng stopThreshold_arg distanceThreshold_arg =
     (let stopThresholdMinutes = (case stopThreshold_arg of None \<Rightarrow> 10 | Some x \<Rightarrow> x);
          distanceThresholdMeters = (case distanceThreshold_arg of None \<Rightarrow> 100 | Some x \<Rightarrow> x)
      in if length gpsPoints < 2 then []
         else
           (case stopLoop destinationLat destinationLng stopThresholdMinutes distanceThresholdMeters
                   gpsPoints ([], None, []) of
              (stops, stopStart, stopPoints) \<Rightarrow>
                closeRun destinationLat destinationLng stopThresholdMinutes stopStart stopPoints stops))"

definition interpolatePlannedRoute :: "real \<Rightarrow> real \<Rightarrow> real \<Rightarrow> real \<Rightarrow> nat option \<Rightarrow> (real \<times> real) list" where
  \<comment> \<open>\<open>numPoints: number = 20\<close>; as for \<open>interpolateRoute\<close>, the definition stands for
      \<open>numPoints \<ge> 1\<close>\<close>
  "interpolatePlannedRoute startLat startLng endLat endLng numPoints_arg =
     (let numPoints = (case numPoints_arg of None \<Rightarrow> 20 | Some n \<Rightarrow> n)
      in map (\<lambda>i. let t = real i / real numPoints
                  in (startLat + t * (endLat - startLat), startLng + t * (endLng - startLng)))
           [0..<numPoints + 1])"

section \<open>Properties used in the statements\<close>

text \<open>
  A stationary run: every sample is less than the distance threshold away from the one
  before it, which is the condition under which the loop of \<open>detectUnscheduledStops\<close>
  keeps a run open.
\<close>

fun stationary :: "real \<Rightarrow> GpsRoutePoint list \<Rightarrow> bool" where
  "stationary d (p # q # rest) =
     (calculateDistance (latitude p) (longitude p) (latitude q) (longitude q) < d \<and>
      stationary d (q # rest))"
| "stationary d _ = True"

section \<open>Binary64 rounding\<close>

lemma round_half_even_of_int: "round_half_even (of_int k) = k"
  by (simp add: round_half_even_def)

lemma round_half_even_ge: "of_int n \<le> y \<Longrightarrow> n \<le> round_half_even y"
proof -
  assume "of_int n \<le> y"
  then have "n \<le> \<lfloor>y\<rfloor>" by (simp add: le_floor_iff)
  then show ?thesis by (simp add: round_half_even_def Let_def)
qed

lemma round_half_even_le: "y \<le> of_int n \<Longrightarrow> round_half_even y \<le> n"
proof (cases "y = of_int n")
  case True
  then show ?thesis by (simp add: round_half_even_of_int)
next
  case False
  assume "y \<le> of_int n"
  with False have "y < of_int n" by simp
  then have "\<lfloor>y\<rfloor> < n" by (simp add: floor_less_iff)
  then show ?thesis by (simp add: round_half_even_def Let_def)
qed

lemma two_powr_int: "2 powr real_of_int e = (2::real) powi e"
  by (rule powr_real_of_int') simp_all

lemma f64_exponent_eq:
  assumes "x \<noteq> 0" and "- 1022 \<le> e" and "\<bar>x\<bar> < 2 powi (e + 1)"
    and "2 powi e \<le> \<bar>x\<bar> \<or> e = - 1022"
  shows "f64_exponent x = e"
proof -
  have pos: "0 < \<bar>x\<bar>" using assms(1) by simp
  have "\<bar>x\<bar> < 2 powr real_of_int (e + 1)"
    using assms(3) by (simp only: two_powr_int)
  then have "log 2 \<bar>x\<bar> < real_of_int (e + 1)"
    using pos by (simp add: log_less_iff)
  then have "\<lfloor>log 2 \<bar>x\<bar>\<rfloor> < e + 1"
    by (simp only: floor_less_iff)
  then have up: "\<lfloor>log 2 \<bar>x\<bar>\<rfloor> \<le> e"
    by simp
  show ?thesis
  proof (cases "2 powi e \<le> \<bar>x\<bar>")
    case True
    then have "2 powr real_of_int e \<le> \<bar>x\<bar>"
      by (simp only: two_powr_int)
    then have "real_of_int e \<le> log 2 \<bar>x\<bar>"
      using pos by (simp add: le_log_iff)
    then have "e \<le> \<lfloor>log 2 \<bar>x\<bar>\<rfloor>"
      by (simp add: le_floor_iff)
    with up assms(2) show ?thesis
      by (simp add: f64_exponent_def)
  next
    case False
    with assms(4) have "e = - 1022" by simp
    with up show ?thesis
      by (simp add: f64_exponent_def)
  qed
qed

lemma powi_split:
  "(2::real) powi (e + 1) = 2 ^ 53 * 2 powi (e - 52)" "(2::real) powi e = 2 ^ 52 * 2 powi (e - 52)"
proof -
  have "(2::real) powi (53 + (e - 52)) = 2 powi 53 * 2 powi (e - 52)"
    by (rule power_int_add) simp
  then show "(2::real) powi (e + 1) = 2 ^ 53 * 2 powi (e - 52)"
    by (simp add: algebra_simps)
  have "(2::real) powi (52 + (e - 52)) = 2 powi 52 * 2 powi (e - 52)"
    by (rule power_int_add) simp
  then show "(2::real) powi e = 2 ^ 52 * 2 powi (e - 52)"
    by simp
qed


lemma f64_representable:
  assumes "x = of_int k * 2 powi (e - 52)" and "- 1022 \<le> e" and "\<bar>k\<bar> < 2 ^ 53"
    and "2 ^ 52 \<le> \<bar>k\<bar> \<or> e = - 1022"
  shows "f64 x = x"
proof (cases "k = 0")
  case True
  with assms(1) show ?thesis by (simp add: f64_def)
next
  case False
  define u :: real where "u = 2 powi (e - 52)"
  have u: "0 < u" by (simp add: u_def)
  have x: "x = of_int k * u" by (simp add: assms(1) u_def)
  have x0: "x \<noteq> 0" using False u by (simp add: x)
  have ax: "\<bar>x\<bar> = of_int \<bar>k\<bar> * u"
    using u by (simp add: x abs_mult)
  have "real_of_int \<bar>k\<bar> < real_of_int (2 ^ 53)"
    using assms(3) by (simp only: of_int_less_iff)
  then have k1: "real_of_int \<bar>k\<bar> < 2 ^ 53"
    by simp
  have p1: "2 powi (e + 1) = 2 ^ 53 * u" and p0: "2 powi e = 2 ^ 52 * u"
    unfolding u_def by (rule powi_split)+
  have hi: "\<bar>x\<bar> < 2 powi (e + 1)"
    unfolding ax p1 using u k1 by (simp only: mult_less_cancel_right_pos)
  have lo: "2 powi e \<le> \<bar>x\<bar> \<or> e = - 1022"
  proof (cases "2 ^ 52 \<le> \<bar>k\<bar>")
    case True
    then have "real_of_int (2 ^ 52) \<le> real_of_int \<bar>k\<bar>"
      by (simp only: of_int_le_iff)
    then have "(2 ^ 52 :: real) \<le> of_int \<bar>k\<bar>"
      by simp
    then have "2 powi e \<le> \<bar>x\<bar>"
      unfolding ax p0 using u by (simp only: mult_le_cancel_right_pos)
    then show ?thesis by simp
  next
    case False
    with assms(4) show ?thesis by simp
  qed
  have "f64_exponent x = e"
    by (rule f64_exponent_eq [OF x0 assms(2) hi lo])
  then have "f64_ulp x = u"
    by (simp add: f64_ulp_def u_def)
  moreover have "x / u = of_int k"
    using u by (simp add: x)
  ultimately show ?thesis
    using x0 by (simp add: f64_def round_half_even_of_int x)
qed

lemma f64_exponent_bounds:
  assumes "x \<noteq> 0"
  shows "- 1022 \<le> f64_exponent x"
    and "\<bar>x\<bar> < 2 powi (f64_exponent x + 1)"
    and "2 powi (f64_exponent x) \<le> \<bar>x\<bar> \<or> f64_exponent x = - 1022"
proof -
  define l where "l = \<lfloor>log 2 \<bar>x\<bar>\<rfloor>"
  have pos: "0 < \<bar>x\<bar>" using assms by simp
  have e: "f64_exponent x = max l (- 1022)"
    by (simp add: f64_exponent_def l_def)
  show "- 1022 \<le> f64_exponent x"
    by (simp add: e)
  have "log 2 \<bar>x\<bar> < real_of_int (l + 1)"
    unfolding l_def by simp
  then have "\<bar>x\<bar> < 2 powr real_of_int (l + 1)"
    using pos by (simp only: log_less_iff)
  then have "\<bar>x\<bar> < 2 powi (l + 1)"
    by (simp only: two_powr_int)
  moreover have "(2::real) powi (l + 1) \<le> 2 powi (f64_exponent x + 1)"
    by (rule power_int_increasing) (simp_all add: e)
  ultimately show "\<bar>x\<bar> < 2 powi (f64_exponent x + 1)"
    by simp
  have "real_of_int l \<le> log 2 \<bar>x\<bar>"
    by (simp add: l_def)
  then have "2 powr real_of_int l \<le> \<bar>x\<bar>"
    using pos by (simp only: le_log_iff)
  then have lo: "2 powi l \<le> \<bar>x\<bar>"
    by (simp only: two_powr_int)
  show "2 powi (f64_exponent x) \<le> \<bar>x\<bar> \<or> f64_exponent x = - 1022"
  proof (cases "- 1022 \<le> l")
    case True
    then have "f64_exponent x = l" by (simp add: e)
    with lo show ?thesis by simp
  next
    case False
    then show ?thesis by (simp add: e)
  qed
qed

lemma f64_closed:
  "\<exists>k e. f64 x = of_int k * 2 powi (e - 52) \<and> - 1022 \<le> e \<and> \<bar>k\<bar> < 2 ^ 53 \<and>
         (2 ^ 52 \<le> \<bar>k\<bar> \<or> e = - 1022)"
proof (cases "x = 0")
  case True
  have "f64 x = of_int 0 * 2 powi (- 1022 - 52)"
    by (simp add: True f64_def)
  then show ?thesis
    by (intro exI [of _ 0] exI [of _ "- 1022"]) simp
next
  case False
  define e where "e = f64_exponent x"
  define u :: real where "u = 2 powi (e - 52)"
  define y where "y = x / u"
  define k where "k = round_half_even y"
  have u: "0 < u" by (simp add: u_def)
  have fx: "f64 x = of_int k * u"
    using False by (simp add: f64_def f64_ulp_def k_def y_def u_def e_def)
  have e1: "- 1022 \<le> e"
    unfolding e_def by (rule f64_exponent_bounds(1) [OF False])
  have p1: "2 powi (e + 1) = 2 ^ 53 * u" and p0: "2 powi e = 2 ^ 52 * u"
    unfolding u_def by (rule powi_split)+
  have ay: "\<bar>x\<bar> = \<bar>y\<bar> * u"
    using u by (simp add: y_def abs_mult)
  have "\<bar>x\<bar> < 2 ^ 53 * u"
    using f64_exponent_bounds(2) [OF False] by (simp only: e_def [symmetric] p1)
  then have yhi: "\<bar>y\<bar> < 2 ^ 53"
    unfolding ay using u by (simp only: mult_less_cancel_right_pos)
  have "y \<le> real_of_int (2 ^ 53)"
    using yhi by simp
  then have k_le: "k \<le> 2 ^ 53"
    unfolding k_def by (rule round_half_even_le)
  have "real_of_int (- (2 ^ 53)) \<le> y"
    using yhi by simp
  then have k_ge: "- (2 ^ 53) \<le> k"
    unfolding k_def by (rule round_half_even_ge)
  have khi: "\<bar>k\<bar> \<le> 2 ^ 53"
    using k_le k_ge by simp
  have klo: "2 ^ 52 \<le> \<bar>k\<bar>" if "e \<noteq> - 1022"
  proof -
    have "2 ^ 52 * u \<le> \<bar>x\<bar>"
      using f64_exponent_bounds(3) [OF False] that by (simp only: e_def [symmetric] p0) simp
    then have ylo: "2 ^ 52 \<le> \<bar>y\<bar>"
      unfolding ay using u by (simp only: mult_le_cancel_right_pos)
    show ?thesis
    proof (cases "0 \<le> y")
      case True
      with ylo have "real_of_int (2 ^ 52) \<le> y" by simp
      then have "2 ^ 52 \<le> k"
        unfolding k_def by (rule round_half_even_ge)
      then show ?thesis by simp
    next
      case False
      with ylo have "y \<le> real_of_int (- (2 ^ 52))" by simp
      then have "k \<le> - (2 ^ 52)"
        unfolding k_def by (rule round_half_even_le)
      then show ?thesis by simp
    qed
  qed
  show ?thesis
  proof (cases "\<bar>k\<bar> < 2 ^ 53")
    case True
    with fx e1 klo show ?thesis
      unfolding u_def by blast
  next
    case False
    with khi have k53: "\<bar>k\<bar> = 2 ^ 53" by simp
    then obtain j where j: "k = 2 * j" "\<bar>j\<bar> = 2 ^ 52"
      by (cases "0 \<le> k") (auto intro: that [of "2 ^ 52"] that [of "- (2 ^ 52)"])
    have "(2::real) powi (1 + (e - 52)) = 2 powi 1 * 2 powi (e - 52)"
      by (rule power_int_add) simp
    then have "2 powi (e + 1 - 52) = 2 * u"
      by (simp add: u_def algebra_simps)
    then have "f64 x = of_int j * 2 powi (e + 1 - 52)"
      by (simp add: fx j(1))
    moreover have "- 1022 \<le> e + 1" using e1 by simp
    moreover have "\<bar>j\<bar> < 2 ^ 53" "2 ^ 52 \<le> \<bar>j\<bar>" by (simp_all add: j(2))
    ultimately show ?thesis by blast
  qed
qed

lemma f64_idempotent: "f64 (f64 x) = f64 x"
proof -
  obtain k e where "f64 x = of_int k * 2 powi (e - 52)" "- 1022 \<le> e" "\<bar>k\<bar> < 2 ^ 53"
    "2 ^ 52 \<le> \<bar>k\<bar> \<or> e = - 1022"
    using f64_closed [of x] by blast
  then show ?thesis
    by (rule f64_representable)
qed


lemma f64_0: "f64 0 = 0"
  by (simp add: f64_def)

lemma f64_1: "f64 1 = 1"
  by (rule f64_representable [where k = "2 ^ 52" and e = 0]) (simp_all add: power_int_minus)

lemma round_half_even_near:
  assumes "\<bar>y - of_int k\<bar> < 1 / 2"
  shows "round_half_even y = k"
proof (cases "of_int k \<le> y")
  case True
  with assms have "y < of_int k + 1" by argo
  with True have f: "\<lfloor>y\<rfloor> = k" by (intro floor_unique) simp_all
  from assms True have "y - of_int k < 1 / 2" by argo
  then show ?thesis
    by (simp add: round_half_even_def Let_def f)
next
  case False
  have k1: "real_of_int (k - 1) = real_of_int k - 1" by simp
  have lo: "of_int (k - 1) \<le> y"
    unfolding k1 using assms False by argo
  have hi: "y < of_int (k - 1) + 1"
    unfolding k1 using assms False by argo
  from lo hi have f: "\<lfloor>y\<rfloor> = k - 1" by (intro floor_unique)
  have "1 / 2 < y - of_int (k - 1)"
    unfolding k1 using assms False by argo
  then show ?thesis
    by (simp add: round_half_even_def Let_def f)
qed

lemma f64_cell:
  assumes "2 powi e \<le> \<bar>x\<bar>" and "\<bar>x\<bar> < 2 powi (e + 1)" and "- 1022 \<le> e"
    and "\<bar>x / 2 powi (e - 52) - of_int k\<bar> < 1 / 2"
  shows "f64 x = of_int k * 2 powi (e - 52)"
proof -
  have "0 < (2::real) powi e" by simp
  then have "0 < \<bar>x\<bar>" using assms(1) by (rule less_le_trans)
  then have x0: "x \<noteq> 0" by simp
  have "f64_exponent x = e"
    by (rule f64_exponent_eq [OF x0 assms(3) assms(2)]) (simp add: assms(1))
  then have "f64_ulp x = 2 powi (e - 52)"
    by (simp add: f64_ulp_def)
  then show ?thesis
    using x0 by (simp add: f64_def round_half_even_near [OF assms(4)])
qed

lemma round_half_even_minus: "round_half_even (- y) = - round_half_even y"
proof (cases "y = of_int \<lfloor>y\<rfloor>")
  case True
  then obtain k where "y = of_int k" ..
  then have "- y = of_int (- k)" by simp
  then show ?thesis
    using \<open>y = of_int k\<close> by (simp only: round_half_even_of_int)
next
  case False
  define f where "f = \<lfloor>y\<rfloor>"
  define r where "r = y - of_int f"
  have fl: "of_int f \<le> y" "y < of_int f + 1"
    unfolding f_def by linarith+
  have ne: "y \<noteq> of_int f"
    using False by (simp add: f_def)
  have r: "0 < r" "r < 1"
    unfolding r_def using fl ne by argo+
  have km: "real_of_int (- f - 1) = - real_of_int f - 1" by simp
  have "of_int (- f - 1) \<le> - y" "- y < of_int (- f - 1) + 1"
    unfolding km using fl ne by argo+
  then have fm: "\<lfloor>- y\<rfloor> = - f - 1"
    by (intro floor_unique)
  have rm: "- y - of_int (- f - 1) = 1 - r"
    by (simp add: r_def)
  have ev: "even (- f - 1) \<longleftrightarrow> odd f"
    by simp
  have "round_half_even y =
      (if r < 1 / 2 then f else if 1 / 2 < r then f + 1 else if even f then f else f + 1)"
    by (simp add: round_half_even_def Let_def f_def r_def)
  moreover have "round_half_even (- y) =
      (if 1 - r < 1 / 2 then - f - 1 else if 1 / 2 < 1 - r then - f
       else if odd f then - f - 1 else - f)"
    unfolding round_half_even_def Let_def fm rm ev by simp
  ultimately show ?thesis
    by (cases "r < 1 / 2"; cases "1 / 2 < r") auto
qed

lemma f64_minus: "f64 (- x) = - f64 x"
  by (simp add: f64_def f64_ulp_def f64_exponent_def round_half_even_minus)

lemma f64_double: "f64 x = x \<Longrightarrow> f64 (- x) = - x"
  by (simp add: f64_minus)

lemma f64_cell_bounds:
  assumes "(of_int k - 1 / 2) * 2 powi (e - 52) < x"
    and "x < (of_int k + 1 / 2) * 2 powi (e - 52)"
    and "2 ^ 52 < k" and "k < 2 ^ 53" and "- 1022 \<le> e"
  shows "f64 x = of_int k * 2 powi (e - 52)"
proof (rule f64_cell [OF _ _ assms(5)])
  define u :: real where "u = 2 powi (e - 52)"
  have u: "0 < u" by (simp add: u_def)
  have p1: "2 powi (e + 1) = 2 ^ 53 * u" and p0: "2 powi e = 2 ^ 52 * u"
    unfolding u_def by (rule powi_split)+
  have "real_of_int (2 ^ 52 + 1) \<le> real_of_int k"
    using assms(3) by (simp only: of_int_le_iff)
  then have k0: "2 ^ 52 \<le> real_of_int k - 1 / 2"
    by simp
  have "real_of_int k \<le> real_of_int (2 ^ 53 - 1)"
    using assms(4) by (simp only: of_int_le_iff)
  then have k1: "real_of_int k + 1 / 2 \<le> 2 ^ 53"
    by simp
  have lo: "(real_of_int k - 1 / 2) * u < x" and hi: "x < (real_of_int k + 1 / 2) * u"
    using assms(1,2) by (simp_all add: u_def)
  have "2 ^ 52 * u \<le> (real_of_int k - 1 / 2) * u"
    using k0 u by (simp only: mult_le_cancel_right_pos)
  with lo have x_lo: "2 ^ 52 * u < x" by simp
  then have xpos: "0 < x"
    using u by (meson less_trans mult_pos_pos zero_less_numeral zero_less_power)
  have "(real_of_int k + 1 / 2) * u \<le> 2 ^ 53 * u"
    using k1 u by (simp only: mult_le_cancel_right_pos)
  with hi have x_hi: "x < 2 ^ 53 * u" by simp
  show "2 powi e \<le> \<bar>x\<bar>"
    unfolding p0 using x_lo xpos by simp
  show "\<bar>x\<bar> < 2 powi (e + 1)"
    unfolding p1 using x_hi xpos by simp
  have "real_of_int k - 1 / 2 < x / u" "x / u < real_of_int k + 1 / 2"
    using lo hi u by (simp_all add: pos_less_divide_eq pos_divide_less_eq)
  then have "\<bar>x / u - real_of_int k\<bar> < 1 / 2"
    by argo
  then show "\<bar>x / 2 powi (e - 52) - real_of_int k\<bar> < 1 / 2"
    by (simp only: u_def)
qed

lemma f64_just_below_one:
  assumes "1 - 1 / 2 ^ 54 < x" and "x \<le> 1"
  shows "f64 x = 1"
proof (cases "x = 1")
  case True
  then show ?thesis by (simp add: f64_1)
next
  case False
  with assms(2) have lt: "x < 1" by simp
  have half: "(1::real) / 2 \<le> 1 - 1 / 2 ^ 54" by simp
  with assms(1) have x_lo: "1 / 2 < x" by simp
  have "f64 x = of_int (2 ^ 53) * 2 powi (- 1 - 52)"
  proof (rule f64_cell)
    show "2 powi (- 1) \<le> \<bar>x\<bar>"
      using x_lo by (simp add: power_int_minus)
    show "\<bar>x\<bar> < 2 powi (- 1 + 1)"
      using lt x_lo by simp
    show "- 1022 \<le> (- 1 :: int)" by simp
    define y where "y = x * 2 ^ 53"
    have c: "(1 - 1 / 2 ^ 54) * 2 ^ 53 = (2 ^ 53 - 1 / 2 :: real)" by simp
    have "x * 2 ^ 53 < 1 * 2 ^ 53"
      using lt by (intro mult_strict_right_mono) simp_all
    then have y1: "y < 2 ^ 53" by (simp add: y_def)
    have "(1 - 1 / 2 ^ 54) * 2 ^ 53 < x * 2 ^ 53"
      using assms(1) by (intro mult_strict_right_mono) simp_all
    then have y0: "2 ^ 53 - 1 / 2 < y" by (simp only: c y_def)
    have "\<bar>y - 2 ^ 53\<bar> < 1 / 2"
      using y0 y1 by argo
    then have "\<bar>x * 2 ^ 53 - 2 ^ 53\<bar> < 1 / 2"
      by (simp only: y_def)
    then show "\<bar>x / 2 powi (- 1 - 52) - real_of_int (2 ^ 53)\<bar> < 1 / 2"
      by (simp add: power_int_minus)
  qed
  then show ?thesis
    by (simp add: power_int_minus)
qed

section \<open>The values of the runtime functions at 8 degrees and at half of \<open>Math.PI\<close>\<close>

text \<open>
  The correctly rounded sine and cosine are found from the Maclaurin polynomials with the
  remainder bound: the polynomial and the bound are rational numbers, and both ends of the
  interval they give round to the same double.
\<close>

lemma K_value: "f64 (Math_PI / 180) = 5030569068109113 / 2 ^ 58"
proof -
  have "f64 (Math_PI / 180) = of_int 5030569068109113 * 2 powi (- 6 - 52)"
    by (rule f64_cell_bounds) (simp_all add: Math_PI_def power_int_minus)
  then show ?thesis
    by (simp add: power_int_minus)
qed

lemma sin_taylor_12:
  "(\<Sum>m<12. sin_coeff m * x ^ m) =
     x - x ^ 3 / 6 + x ^ 5 / 120 - x ^ 7 / 5040 + x ^ 9 / 362880 - x ^ 11 / 39916800" for x :: real
  by (simp add: sin_coeff_def lessThan_nat_numeral fact_numeral)

lemma cos_taylor_12:
  "(\<Sum>m<12. cos_coeff m * x ^ m) =
     1 - x ^ 2 / 2 + x ^ 4 / 24 - x ^ 6 / 720 + x ^ 8 / 40320 - x ^ 10 / 3628800" for x :: real
  by (simp add: cos_coeff_def lessThan_nat_numeral fact_numeral)

lemma Maclaurin_cos_bound: "\<bar>cos x - (\<Sum>m<n. cos_coeff m * x ^ m)\<bar> \<le> inverse (fact n) * \<bar>x\<bar> ^ n"
proof -
  obtain t where eq: "cos x = (\<Sum>m<n. cos_coeff m * x ^ m) + (cos (t + 1 / 2 * real n * pi) / fact n) * x ^ n"
    using Maclaurin_cos_expansion [of x n] by blast
  define c where "c = cos (t + 1 / 2 * real n * pi)"
  define S where "S = (\<Sum>m<n. cos_coeff m * x ^ m)"
  have c: "\<bar>c\<bar> \<le> 1"
    unfolding c_def by (rule abs_cos_le_one)
  have "cos x - S = c / fact n * x ^ n"
    using eq unfolding c_def S_def by (simp only: add_diff_cancel_left')
  then have "\<bar>cos x - S\<bar> = \<bar>c\<bar> / fact n * \<bar>x\<bar> ^ n"
    by (simp add: abs_mult power_abs)
  also have "\<dots> \<le> 1 / fact n * \<bar>x\<bar> ^ n"
    by (intro mult_right_mono divide_right_mono c) simp_all
  finally show ?thesis
    unfolding S_def by (simp only: inverse_eq_divide)
qed

lemma sin_taylor_24:
  "(\<Sum>m<24. sin_coeff m * x ^ m) =
     x - x ^ 3 / 6 + x ^ 5 / 120 - x ^ 7 / 5040 + x ^ 9 / 362880 - x ^ 11 / 39916800 + x ^ 13 / 6227020800 - x ^ 15 / 1307674368000 + x ^ 17 / 355687428096000 - x ^ 19 / 121645100408832000 + x ^ 21 / 51090942171709440000 - x ^ 23 / 25852016738884976640000" for x :: real
  by (simp add: sin_coeff_def lessThan_nat_numeral fact_numeral)

lemma sin_8_degrees: "f64 (sin (5030569068109113 / 2 ^ 55)) = 5014239404989977 / 2 ^ 55"
proof -
  define X :: real where "X = 5030569068109113 / 2 ^ 55"
  define T where "T = X - X ^ 3 / 6 + X ^ 5 / 120 - X ^ 7 / 5040 + X ^ 9 / 362880 -
    X ^ 11 / 39916800"
  define E where "E = X ^ 12 / 479001600"
  have "\<bar>sin X - (\<Sum>m<12. sin_coeff m * X ^ m)\<bar> \<le> inverse (fact 12) * \<bar>X\<bar> ^ 12"
    by (rule Maclaurin_sin_bound)
  moreover have "inverse (fact 12) * \<bar>X\<bar> ^ 12 = E"
    by (simp add: E_def X_def fact_numeral)
  ultimately have b: "\<bar>sin X - T\<bar> \<le> E"
    by (simp only: sin_taylor_12 T_def)
  have lo: "(5014239404989977 - 1 / 2) / 2 ^ 55 < T - E"
    unfolding T_def E_def X_def by (simp add: power_divide)
  have hi: "T + E < (5014239404989977 + 1 / 2) / 2 ^ 55"
    unfolding T_def E_def X_def by (simp add: power_divide)
  have "(5014239404989977 - 1 / 2) / 2 ^ 55 < sin X" "sin X < (5014239404989977 + 1 / 2) / 2 ^ 55"
    using b lo hi by argo+
  then have "f64 (sin X) = of_int 5014239404989977 * 2 powi (- 3 - 52)"
    by (intro f64_cell_bounds) (simp_all add: power_int_minus)
  then show ?thesis
    by (simp add: power_int_minus X_def)
qed

lemma cos_8_degrees: "f64 (cos (5030569068109113 / 2 ^ 55)) = 8919541810762874 / 2 ^ 53"
proof -
  define X :: real where "X = 5030569068109113 / 2 ^ 55"
  define T where "T = 1 - X ^ 2 / 2 + X ^ 4 / 24 - X ^ 6 / 720 + X ^ 8 / 40320 -
    X ^ 10 / 3628800"
  define E where "E = X ^ 12 / 479001600"
  have "\<bar>cos X - (\<Sum>m<12. cos_coeff m * X ^ m)\<bar> \<le> inverse (fact 12) * \<bar>X\<bar> ^ 12"
    by (rule Maclaurin_cos_bound)
  moreover have "inverse (fact 12) * \<bar>X\<bar> ^ 12 = E"
    by (simp add: E_def X_def fact_numeral)
  ultimately have b: "\<bar>cos X - T\<bar> \<le> E"
    by (simp only: cos_taylor_12 T_def)
  have lo: "(8919541810762874 - 1 / 2) / 2 ^ 53 < T - E"
    unfolding T_def E_def X_def by (simp add: power_divide)
  have hi: "T + E < (8919541810762874 + 1 / 2) / 2 ^ 53"
    unfolding T_def E_def X_def by (simp add: power_divide)
  have "(8919541810762874 - 1 / 2) / 2 ^ 53 < cos X" "cos X < (8919541810762874 + 1 / 2) / 2 ^ 53"
    using b lo hi by argo+
  then have "f64 (cos X) = of_int 8919541810762874 * 2 powi (- 1 - 52)"
    by (intro f64_cell_bounds) (simp_all add: power_int_minus)
  then show ?thesis
    by (simp add: power_int_minus X_def)
qed

lemma sin_half_Math_PI: "f64 (sin (Math_PI / 2)) = 1"
proof -
  define X :: real where "X = 884279719003555 / 2 ^ 49"
  define T where "T = X - X ^ 3 / 6 + X ^ 5 / 120 - X ^ 7 / 5040 + X ^ 9 / 362880 -
    X ^ 11 / 39916800 + X ^ 13 / 6227020800 - X ^ 15 / 1307674368000 +
    X ^ 17 / 355687428096000 - X ^ 19 / 121645100408832000 +
    X ^ 21 / 51090942171709440000 - X ^ 23 / 25852016738884976640000"
  define E where "E = X ^ 24 / 620448401733239439360000"
  have X: "Math_PI / 2 = X"
    by (simp add: Math_PI_def X_def)
  have "\<bar>sin X - (\<Sum>m<24. sin_coeff m * X ^ m)\<bar> \<le> inverse (fact 24) * \<bar>X\<bar> ^ 24"
    by (rule Maclaurin_sin_bound)
  moreover have "inverse (fact 24) * \<bar>X\<bar> ^ 24 = E"
    by (simp add: E_def X_def fact_numeral)
  ultimately have b: "\<bar>sin X - T\<bar> \<le> E"
    by (simp only: sin_taylor_24 T_def)
  have lo: "1 - 1 / 2 ^ 54 < T - E"
    unfolding T_def E_def X_def by (simp add: power_divide)
  have "1 - 1 / 2 ^ 54 < sin X"
    using b lo by argo
  then have "f64 (sin X) = 1"
    by (rule f64_just_below_one) simp
  then show ?thesis
    by (simp only: X)
qed

section \<open>The haversine distance of the server\<close>

lemma f64_16: "f64 16 = 16"
  by (rule f64_representable [where k = "2 ^ 52" and e = 4]) (simp_all add: power_int_minus)

lemma f64_180: "f64 180 = 180"
  by (rule f64_representable [where k = "45 * 2 ^ 47" and e = 7]) (simp_all add: power_int_minus)

lemma f64_8_degrees: "f64 (5030569068109113 / 2 ^ 55) = 5030569068109113 / 2 ^ 55"
  by (rule f64_representable [where k = 5030569068109113 and e = "- 3"])
     (simp_all add: power_int_minus)

lemma f64_16_degrees: "f64 (5030569068109113 / 2 ^ 54) = 5030569068109113 / 2 ^ 54"
  by (rule f64_representable [where k = 5030569068109113 and e = "- 2"])
     (simp_all add: power_int_minus)

lemma toRadians_8: "toRadians 8 = 5030569068109113 / 2 ^ 55"
  using f64_8_degrees by (simp add: toRadians_def K_value)

lemma toRadians_minus_8: "toRadians (- 8) = - (5030569068109113 / 2 ^ 55)"
  using f64_double [OF f64_8_degrees] by (simp add: toRadians_def K_value)

lemma toRadians_16: "toRadians 16 = 5030569068109113 / 2 ^ 54"
  using f64_16_degrees by (simp add: toRadians_def K_value)

lemma toRadians_minus_16: "toRadians (- 16) = - (5030569068109113 / 2 ^ 54)"
  using f64_double [OF f64_16_degrees] by (simp add: toRadians_def K_value)

lemma toRadians_180: "toRadians 180 = Math_PI"
proof -
  have "toRadians 180 = f64 (180 * (5030569068109113 / 2 ^ 58))"
    unfolding toRadians_def K_value ..
  also have "\<dots> = of_int 7074237752028440 * 2 powi (1 - 52)"
    by (rule f64_cell_bounds) (simp_all add: power_int_minus)
  also have "\<dots> = Math_PI"
    by (simp add: Math_PI_def power_int_minus)
  finally show ?thesis .
qed

lemma f64_half_Math_PI: "f64 (Math_PI / 2) = Math_PI / 2"
  by (rule f64_representable [where k = 7074237752028440 and e = 0])
     (simp_all add: power_int_minus Math_PI_def)

lemma f64_sin_squared:
  "f64 (5014239404989977 / 2 ^ 55 * (5014239404989977 / 2 ^ 55)) = 5582777975588868 / 2 ^ 58"
proof -
  have "f64 (5014239404989977 / 2 ^ 55 * (5014239404989977 / 2 ^ 55)) =
      of_int 5582777975588868 * 2 powi (- 6 - 52)"
    by (rule f64_cell_bounds) (simp_all add: power_int_minus)
  then show ?thesis
    by (simp add: power_int_minus)
qed

lemma f64_cos_squared:
  "f64 (8919541810762874 / 2 ^ 53 * (8919541810762874 / 2 ^ 53)) = 8832737443003841 / 2 ^ 53"
proof -
  have "f64 (8919541810762874 / 2 ^ 53 * (8919541810762874 / 2 ^ 53)) =
      of_int 8832737443003841 * 2 powi (- 1 - 52)"
    by (rule f64_cell_bounds) (simp_all add: power_int_minus)
  then show ?thesis
    by (simp add: power_int_minus)
qed

lemma f64_sum_of_squares:
  "f64 (5582777975588868 / 2 ^ 58 + 8832737443003841 / 2 ^ 53) = 1 + 1 / 2 ^ 52"
proof -
  have "f64 (5582777975588868 / 2 ^ 58 + 8832737443003841 / 2 ^ 53) =
      of_int (2 ^ 52 + 1) * 2 powi (0 - 52)"
    by (rule f64_cell_bounds) (simp_all add: power_int_minus)
  then show ?thesis
    by (simp add: power_int_minus field_simps)
qed

lemma haversine_a_above_one:
  assumes "lat c1 = 8" and "lat c2 = - 8" and "lng c2 - lng c1 = 180"
  shows "haversine_a c1 c2 = 1 + 1 / 2 ^ 52"
proof -
  define X :: real where "X = 5030569068109113 / 2 ^ 55"
  have dlat: "f64 (toRadians (f64 (lat c2 - lat c1)) / 2) = - X"
  proof -
    have "f64 (lat c2 - lat c1) = - 16"
      using f64_double [OF f64_16] by (simp add: assms)
    then have "toRadians (f64 (lat c2 - lat c1)) / 2 = - X"
      by (simp add: toRadians_minus_16 X_def)
    then show ?thesis
      using f64_double [OF f64_8_degrees] by (simp add: X_def)
  qed
  have dlng: "f64 (toRadians (f64 (lng c2 - lng c1)) / 2) = Math_PI / 2"
    by (simp add: assms f64_180 toRadians_180 f64_half_Math_PI)
  have s: "Math_sin (- X) = - (5014239404989977 / 2 ^ 55)"
    unfolding Math_sin_def sin_minus f64_minus X_def sin_8_degrees ..
  have c: "Math_cos X = 8919541810762874 / 2 ^ 53" "Math_cos (- X) = 8919541810762874 / 2 ^ 53"
    unfolding Math_cos_def cos_minus X_def cos_8_degrees by (rule refl)+
  have s2: "Math_sin (Math_PI / 2) = 1"
    unfolding Math_sin_def by (rule sin_half_Math_PI)
  have "haversine_a c1 c2 =
      f64 (f64 (Math_sin (- X) * Math_sin (- X)) +
           f64 (f64 (f64 (Math_cos X * Math_cos (- X)) * Math_sin (Math_PI / 2)) *
                Math_sin (Math_PI / 2)))"
    unfolding haversine_a_def Let_def dlat dlng
    by (simp only: assms toRadians_8 toRadians_minus_8 X_def)
  also have "\<dots> = f64 (f64 (5014239404989977 / 2 ^ 55 * (5014239404989977 / 2 ^ 55)) +
      f64 (8919541810762874 / 2 ^ 53 * (8919541810762874 / 2 ^ 53)))"
    unfolding s c s2 by (simp only: minus_mult_minus mult_1_right f64_idempotent)
  also have "\<dots> = 1 + 1 / 2 ^ 52"
    by (simp only: f64_sin_squared f64_cos_squared f64_sum_of_squares)
  finally show ?thesis .
qed

lemma haversineDistance_NaN:
  assumes "lat c1 = 8" and "lat c2 = - 8" and "lng c2 - lng c1 = 180"
  shows "haversineDistance c1 c2 = NaN"
proof -
  have "f64 (1 - (1 + 1 / 2 ^ 52)) = - (1 / 2 ^ 52)"
  proof -
    have "f64 (1 / 2 ^ 52) = 1 / 2 ^ 52"
      by (rule f64_representable [where k = "2 ^ 52" and e = "- 52"])
         (simp_all add: power_int_minus)
    then show ?thesis
      using f64_minus [of "1 / 2 ^ 52"] by simp
  qed
  then have "Math_sqrt (f64 (1 - haversine_a c1 c2)) = NaN"
    by (simp add: haversine_a_above_one [OF assms] Math_sqrt_def)
  then show ?thesis
    by (simp add: haversineDistance_def Let_def split: extnum.split)
qed

lemma lineLength_eq_0_iff:
  "lineLength a b = 0 \<longleftrightarrow> lat b = lat a \<and> lng b = lng a"
  by (simp add: lineLength_def Let_def real_sqrt_eq_zero_cancel_iff add_nonneg_eq_0_iff)

lemma lineLength_square:
  "lineLength a b * lineLength a b =
     (lat b - lat a) * (lat b - lat a) + (lng b - lng a) * (lng b - lng a)"
  by (simp add: lineLength_def Let_def)

lemma projection_t_range: "0 \<le> projection_t p a b \<and> projection_t p a b \<le> 1"
  by (simp add: projection_t_def Let_def)

lemma projection_t_start: "projection_t a a b = 0"
  by (simp add: projection_t_def Let_def)

lemma Coordinate_eta: "\<lparr>lat = lat a, lng = lng a\<rparr> = a"
  by (cases a) simp

lemma Coordinate_eq_iff: "a = b \<longleftrightarrow> lat a = lat b \<and> lng a = lng b" for a b :: Coordinate
  by (cases a, cases b) auto

lemma consecutive_in_zip:
  assumes "i < n"
  shows "(f i, f (Suc i)) \<in> set (zip (map f [0..<n + 1]) (tl (map f [0..<n + 1])))"
proof -
  have "map f [0..<n + 1] ! i = f i" "tl (map f [0..<n + 1]) ! i = f (Suc i)"
    using assms by (simp_all add: nth_tl del: upt_Suc)
  moreover have "i < length (map f [0..<n + 1])" "i < length (tl (map f [0..<n + 1]))"
    using assms by simp_all
  ultimately show ?thesis
    unfolding in_set_zip by (intro exI [of _ i]) simp
qed

lemma projection_is_closest:
  assumes "a \<noteq> b" and "0 \<le> u" and "u \<le> 1"
  shows "(lat p - (lat a + projection_t p a b * (lat b - lat a)))\<^sup>2 +
         (lng p - (lng a + projection_t p a b * (lng b - lng a)))\<^sup>2
         \<le> (lat p - (lat a + u * (lat b - lat a)))\<^sup>2 +
           (lng p - (lng a + u * (lng b - lng a)))\<^sup>2"
proof -
  define x where "x = lat p - lat a"
  define y where "y = lng p - lng a"
  define v where "v = lat b - lat a"
  define w where "w = lng b - lng a"
  define L where "L = v * v + w * w"
  define u0 where "u0 = (x * v + y * w) / L"
  define t where "t = projection_t p a b"
  have "lineLength a b \<noteq> 0"
    using assms(1) by (auto simp: lineLength_eq_0_iff Coordinate_eq_iff)
  then have L: "0 < L"
    unfolding L_def v_def w_def lineLength_eq_0_iff
    by (metis add_pos_nonneg add_nonneg_pos zero_le_square mult_eq_0_iff
        less_le right_minus_eq)
  have t: "t = max 0 (min 1 u0)"
    by (simp add: t_def projection_t_def Let_def lineLength_square u0_def L_def x_def y_def v_def w_def)
  have dot: "x * v + y * w = u0 * L"
    using L by (simp add: u0_def)
  have f: "(x - s * v)\<^sup>2 + (y - s * w)\<^sup>2 = x\<^sup>2 + y\<^sup>2 - 2 * s * (u0 * L) + s\<^sup>2 * L" for s
  proof -
    have "(x - s * v)\<^sup>2 + (y - s * w)\<^sup>2 =
          x\<^sup>2 + y\<^sup>2 - 2 * s * (x * v + y * w) + s\<^sup>2 * (v * v + w * w)"
      by (simp add: power2_eq_square algebra_simps)
    then show ?thesis
      by (simp only: dot L_def)
  qed
  have diff: "((x - u * v)\<^sup>2 + (y - u * w)\<^sup>2) - ((x - t * v)\<^sup>2 + (y - t * w)\<^sup>2)
        = L * ((u - t) * (u + t - 2 * u0))"
    unfolding f by (simp add: power2_eq_square algebra_simps)
  have "0 \<le> (u - t) * (u + t - 2 * u0)"
  proof (cases "u0 \<le> 0")
    case True
    then have "t = 0" by (simp add: t)
    with True assms(2) show ?thesis by (simp add: mult_nonneg_nonneg)
  next
    case False
    show ?thesis
    proof (cases "1 \<le> u0")
      case True
      then have "t = 1" by (simp add: t)
      moreover have "u - 1 \<le> 0" "u + 1 - 2 * u0 \<le> 0"
        using True assms(3) by simp_all
      ultimately show ?thesis by (simp add: mult_nonpos_nonpos)
    next
      case F2: False
      with False have "t = u0" by (simp add: t)
      then have "(u - t) * (u + t - 2 * u0) = (u - u0) * (u - u0)" by simp
      then show ?thesis by simp
    qed
  qed
  with L have "0 \<le> L * ((u - t) * (u + t - 2 * u0))"
    by (simp add: mult_nonneg_nonneg)
  with diff have "(x - t * v)\<^sup>2 + (y - t * w)\<^sup>2 \<le> (x - u * v)\<^sup>2 + (y - u * w)\<^sup>2"
    by simp
  then show ?thesis
    by (simp add: x_def y_def v_def w_def t_def algebra_simps)
qed

lemma Math_round_0: "Math_round 0 = 0"
  by (simp add: Math_round_def)

lemma Math_round_1000: "Math_round 1000 = 1000"
proof -
  have "\<lfloor>(1000::real) + 1 / 2\<rfloor> = 1000" by linarith
  then show ?thesis by (simp add: Math_round_def)
qed

lemma pathLoop_count:
  "fst (pathLoop route tol path (c, t, mx)) =
     c + length (filter (\<lambda>q. ext_le (minDistance q route Infinity) tol) path)"
  by (induction path arbitrary: c t mx) (simp_all add: Let_def)


lemma toRadians_0: "toRadians 0 = 0"
  by (simp add: toRadians_def f64_0)

lemma haversine_a_same: "haversine_a a a = 0"
  by (simp add: haversine_a_def toRadians_0 f64_0 Math_sin_def)

lemma haversineDistance_same: "haversineDistance a a = Fin 0"
proof -
  have "atan2 0 1 = 0" by (simp add: atan2_def)
  then show ?thesis
    by (simp add: haversineDistance_def haversine_a_same Math_sqrt_def Math_atan2_def f64_0 f64_1)
qed

lemma toRadians_minus: "toRadians (- d) = - toRadians d"
  by (simp add: toRadians_def f64_minus)

lemma Math_sin_minus: "Math_sin (- x) = - Math_sin x"
  by (simp add: Math_sin_def f64_minus)

lemma Math_cos_minus: "Math_cos (- x) = Math_cos x"
  by (simp add: Math_cos_def)

lemma haversine_a_sym: "haversine_a b a = haversine_a a b"
proof -
  have d: "f64 (x - y) = - f64 (y - x)" for x y :: real
    using f64_minus [of "y - x"] by simp
  have h: "f64 (- x / 2) = - f64 (x / 2)" for x :: real
    using f64_minus [of "x / 2"] by simp
  show ?thesis
    unfolding haversine_a_def Let_def d [of "lat a" "lat b"] d [of "lng a" "lng b"]
      toRadians_minus h Math_sin_minus
    by (simp add: f64_minus mult.commute)
qed

lemma haversineDistance_sym: "haversineDistance b a = haversineDistance a b"
  by (simp add: haversineDistance_def haversine_a_sym [of b a])

lemma pointToLineSegmentDistance_start: "pointToLineSegmentDistance a a b = Fin 0"
  by (simp add: pointToLineSegmentDistance_def projection_def projection_t_start
      haversineDistance_same Let_def Coordinate_eta)

lemma minDistance_from_NaN: "minDistance p route NaN = NaN"
  by (induction p route NaN rule: minDistance.induct) simp_all

lemma minDistance_NaN:
  assumes "(a, b) \<in> set (zip route (tl route))"
    and "pointToLineSegmentDistance p a b = NaN"
  shows "minDistance p route m = NaN"
  using assms
proof (induction p route m rule: minDistance.induct)
  case (1 p u v rest m)
  show ?case
  proof (cases "(a, b) = (u, v)")
    case True
    with "1.prems" have "Math_min m (pointToLineSegmentDistance p u v) = NaN"
      by (cases m) simp_all
    then show ?thesis by (simp add: minDistance_from_NaN)
  next
    case False
    with "1.prems" have "(a, b) \<in> set (zip (v # rest) (tl (v # rest)))"
      by auto
    with "1.IH" "1.prems"(2) show ?thesis by simp
  qed
qed simp_all

lemma pathLoop_NaN:
  "snd (pathLoop route tol path (c, NaN, NaN)) = (NaN, NaN) \<and>
   fst (pathLoop route tol path (c, NaN, NaN)) \<le> c + length path"
proof (induction path arbitrary: c)
  case Nil
  then show ?case by simp
next
  case (Cons p path)
  have "ext_add NaN m = NaN" "Math_max NaN m = NaN" for m
    by simp_all
  then show ?case
    using Cons [of c] Cons [of "c + 1"] by (simp add: Let_def)
qed

section \<open>Near-antipodal points, the segment distance and the planned route\<close>

text \<open>
  C8 (the haversine distance is symmetric and zero on the diagonal) does not hold of the code
  for all in-range coordinates. For \<open>(8, 0)\<close> and \<open>(-8, 180)\<close>, which are nearly
  antipodal, the local \<open>a\<close> is rounded to \<open>1 + 2 powi -52\<close>, \<open>Math.sqrt(1 - a)\<close>
  is \<open>NaN\<close>, and so is the distance in either order: the comparison
  \<open>haversineDistance(a, b) == haversineDistance(b, a)\<close> is false.
  Both orders always compute the same value (\<open>haversineDistance_sym\<close>) and the distance
  of a point to itself is 0 (\<open>haversineDistance_same\<close>).
\<close>

theorem haversineDistance_near_antipodal:
  "haversineDistance \<lparr>lat = 8, lng = 0\<rparr> \<lparr>lat = - 8, lng = 180\<rparr> = NaN \<and>
   haversineDistance \<lparr>lat = - 8, lng = 180\<rparr> \<lparr>lat = 8, lng = 0\<rparr> = NaN \<and>
   \<not> strict_equal (haversineDistance \<lparr>lat = 8, lng = 0\<rparr> \<lparr>lat = - 8, lng = 180\<rparr>)
                    (haversineDistance \<lparr>lat = - 8, lng = 180\<rparr> \<lparr>lat = 8, lng = 0\<rparr>)"
proof -
  have "haversineDistance \<lparr>lat = 8, lng = 0\<rparr> \<lparr>lat = - 8, lng = 180\<rparr> = NaN"
    by (rule haversineDistance_NaN) simp_all
  then show ?thesis
    by (simp add: haversineDistance_sym [of "\<lparr>lat = - 8, lng = 180\<rparr>"])
qed

text \<open>
  C9: on a zero-length segment \<open>pointToLineSegmentDistance(p, s, s)\<close> is
  \<open>haversineDistance(p, s)\<close>, and the function has no error value; on any other segment
  the projection parameter lies in \<open>[0, 1]\<close>, the result is the distance to the point of
  the segment at that parameter, and that point is the point of the segment closest to
  \<open>p\<close> in the plane of latitude and longitude, in which the projection is computed: no
  other parameter \<open>u\<close> in \<open>[0, 1]\<close> gives a closer point.
\<close>

theorem segment_distance_degenerate_and_clamped:
  "pointToLineSegmentDistance p s s = haversineDistance p s \<and>
   0 \<le> projection_t p a b \<and> projection_t p a b \<le> 1 \<and>
   pointToLineSegmentDistance p a b =
     (if a = b then haversineDistance p a
      else haversineDistance p
             \<lparr>lat = lat a + projection_t p a b * (lat b - lat a),
              lng = lng a + projection_t p a b * (lng b - lng a)\<rparr>) \<and>
   (a \<noteq> b \<and> 0 \<le> u \<and> u \<le> 1 \<longrightarrow>
      (lat p - (lat a + projection_t p a b * (lat b - lat a)))\<^sup>2 +
      (lng p - (lng a + projection_t p a b * (lng b - lng a)))\<^sup>2
      \<le> (lat p - (lat a + u * (lat b - lat a)))\<^sup>2 +
        (lng p - (lng a + u * (lng b - lng a)))\<^sup>2)"
proof -
  have "lineLength a b = 0 \<longleftrightarrow> a = b"
    by (auto simp: lineLength_eq_0_iff Coordinate_eq_iff)
  then have "pointToLineSegmentDistance p a b =
     (if a = b then haversineDistance p a
      else haversineDistance p
             \<lparr>lat = lat a + projection_t p a b * (lat b - lat a),
              lng = lng a + projection_t p a b * (lng b - lng a)\<rparr>)"
    by (simp add: pointToLineSegmentDistance_def projection_def Let_def)
  moreover have "pointToLineSegmentDistance p s s = haversineDistance p s"
    by (simp add: pointToLineSegmentDistance_def lineLength_eq_0_iff)
  ultimately show ?thesis
    using projection_t_range [of p a b] projection_is_closest [of a b u p] by blast
qed

theorem segment_distance_degenerate_and_clamped_witness:
  "\<lparr>lat = 0, lng = 0\<rparr> \<noteq> \<lparr>lat = 0, lng = 4\<rparr> \<and> (0::real) \<le> 1 / 4 \<and> (1::real) / 4 \<le> 1 \<and>
   projection_t \<lparr>lat = 1, lng = 2\<rparr> \<lparr>lat = 0, lng = 0\<rparr> \<lparr>lat = 0, lng = 4\<rparr> = 1 / 2 \<and>
   pointToLineSegmentDistance \<lparr>lat = 1, lng = 2\<rparr> \<lparr>lat = 0, lng = 0\<rparr> \<lparr>lat = 0, lng = 4\<rparr> =
     haversineDistance \<lparr>lat = 1, lng = 2\<rparr> \<lparr>lat = 0, lng = 2\<rparr> \<and>
   (1 - (0 + 1 / 2 * (0 - 0)))\<^sup>2 + (2 - (0 + 1 / 2 * (4 - 0)))\<^sup>2
     \<le> ((1 - (0 + 1 / 4 * (0 - 0)))\<^sup>2 + (2 - (0 + 1 / 4 * (4 - 0)))\<^sup>2 :: real)"
proof -
  let ?p = "\<lparr>lat = 1, lng = 2\<rparr>"
  let ?a = "\<lparr>lat = 0, lng = 0\<rparr>"
  let ?b = "\<lparr>lat = 0, lng = 4\<rparr>"
  have "lineLength ?a ?b * lineLength ?a ?b = 16"
    by (simp add: lineLength_square)
  then have t: "projection_t ?p ?a ?b = 1 / 2"
    by (simp add: projection_t_def)
  have h: "?a \<noteq> ?b \<and> (0::real) \<le> 1 / 4 \<and> (1::real) / 4 \<le> 1"
    by simp
  show ?thesis
    using segment_distance_degenerate_and_clamped [of ?p ?a ?a ?b "1 / 4"] h
    by (simp add: t)
qed

text \<open>
  C3 (a path that is exactly the planned route of 21 waypoints has \<open>compliancePercent\<close>
  100 and \<open>maxDeviation\<close> 0) does not hold of the code for all in-range endpoints. From
  pickup \<open>(8, -180)\<close> to delivery \<open>(-24, 180)\<close> the first waypoint is nearly antipodal
  to the eleventh, \<open>(-8, 0)\<close>, onto which it projects on the segment that starts there;
  that distance is \<open>NaN\<close>, \<open>Math.min\<close> and \<open>Math.max\<close> keep it, the first point is
  not counted as compliant, and the result has \<open>maxDeviation\<close> \<open>NaN\<close> and a
  \<open>compliancePercent\<close> of at most 95.2.
\<close>

theorem planned_route_across_the_date_line:
  "maxDeviation
     (calculateRouteCompliance
        (interpolateRoute \<lparr>lat = 8, lng = - 180\<rparr> \<lparr>lat = - 24, lng = 180\<rparr> (Some 20))
        \<lparr>lat = 8, lng = - 180\<rparr> \<lparr>lat = - 24, lng = 180\<rparr> None) = NaN \<and>
   compliancePercent
     (calculateRouteCompliance
        (interpolateRoute \<lparr>lat = 8, lng = - 180\<rparr> \<lparr>lat = - 24, lng = 180\<rparr> (Some 20))
        \<lparr>lat = 8, lng = - 180\<rparr> \<lparr>lat = - 24, lng = 180\<rparr> None) \<le> 95.2"
proof -
  let ?P = "\<lparr>lat = 8, lng = - 180\<rparr>"
  let ?D = "\<lparr>lat = - 24, lng = 180\<rparr>"
  let ?w = "waypoint ?P ?D 20"
  define route where "route = interpolateRoute ?P ?D (Some 20)"
  have r: "route = map ?w [0..<20 + 1]"
    by (simp only: route_def interpolateRoute_def Let_def option.case)
  have len: "length route = 21"
    unfolding r by simp
  have w0: "?w 0 = ?P"
    by (simp add: waypoint_def)
  have w10: "?w 10 = \<lparr>lat = - 8, lng = 0\<rparr>"
    by (simp add: waypoint_def)
  have w11: "?w (Suc 10) = \<lparr>lat = - (48 / 5), lng = 18\<rparr>"
    by (simp add: waypoint_def)
  have mem: "(?w 10, ?w (Suc 10)) \<in> set (zip route (tl route))"
    unfolding r by (rule consecutive_in_zip) simp
  have ll: "lineLength \<lparr>lat = - 8, lng = 0\<rparr> \<lparr>lat = - (48 / 5), lng = 18\<rparr> *
      lineLength \<lparr>lat = - 8, lng = 0\<rparr> \<lparr>lat = - (48 / 5), lng = 18\<rparr> = 8164 / 25"
    by (simp add: lineLength_square)
  then have ne: "lineLength \<lparr>lat = - 8, lng = 0\<rparr> \<lparr>lat = - (48 / 5), lng = 18\<rparr> \<noteq> 0"
    by auto
  have t: "projection_t ?P \<lparr>lat = - 8, lng = 0\<rparr> \<lparr>lat = - (48 / 5), lng = 18\<rparr> = 0"
    unfolding projection_t_def Let_def ll by simp
  have pr: "projection ?P \<lparr>lat = - 8, lng = 0\<rparr> \<lparr>lat = - (48 / 5), lng = 18\<rparr> =
      \<lparr>lat = - 8, lng = 0\<rparr>"
    by (simp add: projection_def t)
  have "haversineDistance ?P \<lparr>lat = - 8, lng = 0\<rparr> = NaN"
    by (rule haversineDistance_NaN) simp_all
  then have "pointToLineSegmentDistance ?P (?w 10) (?w (Suc 10)) = NaN"
    unfolding w10 w11 by (simp add: pointToLineSegmentDistance_def ne pr)
  then have m: "minDistance ?P route Infinity = NaN"
    by (rule minDistance_NaN [OF mem])
  have "route = ?w 0 # map ?w [1..<20 + 1]"
    unfolding r by (simp add: upt_conv_Cons del: upt_Suc)
  then obtain rest where rest: "route = ?P # rest"
    unfolding w0 by blast
  then have lrest: "length rest = 20"
    using len by simp
  have "pathLoop route 500 route (0, Fin 0, Fin 0) = pathLoop route 500 rest (0, NaN, NaN)"
    by (subst (2) rest) (simp add: m)
  with pathLoop_NaN [of route 500 rest 0]
  obtain c where c: "pathLoop route 500 route (0, Fin 0, Fin 0) = (c, NaN, NaN)" "c \<le> 20"
    unfolding lrest by (cases "pathLoop route 500 rest (0, NaN, NaN)") auto
  have "real c / 21 * 100 * 10 + 1 / 2 \<le> 20 / 21 * 100 * 10 + 1 / 2"
    using c(2) by simp
  also have "\<dots> < 953"
    by simp
  finally have "\<lfloor>real c / 21 * 100 * 10 + 1 / 2\<rfloor> < 953"
    by (simp add: floor_less_iff)
  then have "\<lfloor>real c / 21 * 100 * 10 + 1 / 2\<rfloor> \<le> 952"
    by simp
  then have "real_of_int \<lfloor>real c / 21 * 100 * 10 + 1 / 2\<rfloor> \<le> 952"
    by (simp only: of_int_le_numeral_iff)
  then have mr: "Math_round (real c / 21 * 100 * 10) / 10 \<le> 95.2"
    by (simp add: Math_round_def)
  have "calculateRouteCompliance route ?P ?D None =
      \<lparr>compliancePercent = Math_round (real c / 21 * 100 * 10) / 10,
       maxDeviation = NaN, averageDeviation = NaN\<rparr>"
    unfolding calculateRouteCompliance_def
    by (simp add: len c(1) route_def [symmetric])
  with mr show ?thesis
    by (simp add: route_def)
qed

section \<open>The tolerance\<close>

lemma single_point_compliance:
  assumes "minDistance p (interpolateRoute s e (Some 20)) Infinity = Fin d"
  shows "compliancePercent (calculateRouteCompliance [p] s e (Some tol)) =
           (if d \<le> tol then 100 else 0)"
proof -
  have "pathLoop (interpolateRoute s e (Some 20)) tol [p] (0, Fin 0, Fin 0) =
          (if d \<le> tol then 1 else 0, Fin d, Fin (max 0 d))"
    by (simp add: assms)
  then show ?thesis
    by (simp add: calculateRouteCompliance_def Math_round_0 Math_round_1000)
qed

text \<open>
  C4: the number of compliant points is the number of points of \<open>actualPath\<close> whose
  minimum distance to the planned route is at most \<open>toleranceMeters\<close>; a point whose
  minimum distance is exactly the tolerance is counted as compliant (a path of this one point
  has 100 percent), and it is not counted under any smaller tolerance, such as one meter less
  (0 percent).
\<close>

theorem tolerance_boundary:
  "fst (pathLoop (interpolateRoute s e (Some 20)) tol path (0, Fin 0, Fin 0)) =
     length (filter (\<lambda>q. ext_le (minDistance q (interpolateRoute s e (Some 20)) Infinity) tol) path) \<and>
   (minDistance p (interpolateRoute s e (Some 20)) Infinity = Fin d \<longrightarrow>
      ext_le (minDistance p (interpolateRoute s e (Some 20)) Infinity) d \<and>
      compliancePercent (calculateRouteCompliance [p] s e (Some d)) = 100 \<and>
      (\<forall>tol'. tol' < d \<longrightarrow>
         \<not> ext_le (minDistance p (interpolateRoute s e (Some 20)) Infinity) tol' \<and>
         compliancePercent (calculateRouteCompliance [p] s e (Some tol')) = 0))"
  using pathLoop_count [of "interpolateRoute s e (Some 20)" tol path 0 "Fin 0" "Fin 0"]
  by (auto simp: single_point_compliance)

lemma interpolateRoute_same:
  "interpolateRoute s s (Some n) = replicate (Suc n) s"
proof -
  have "waypoint s s n = (\<lambda>i. s)"
    by (rule ext) (simp add: waypoint_def Coordinate_eta)
  then show ?thesis
    by (simp add: interpolateRoute_def map_replicate_const del: upt_Suc replicate_Suc)
qed

lemma minDistance_degenerate_route:
  "minDistance p (replicate (Suc (Suc k)) s) m = Math_min m (haversineDistance p s)"
proof (induction k arbitrary: m)
  case 0
  then show ?case
    by (simp add: pointToLineSegmentDistance_def lineLength_eq_0_iff)
next
  case (Suc k)
  have "minDistance p (replicate (Suc (Suc (Suc k))) s) m =
        minDistance p (replicate (Suc (Suc k)) s) (Math_min m (haversineDistance p s))"
    by (simp add: pointToLineSegmentDistance_def lineLength_eq_0_iff)
  also have "\<dots> = Math_min (Math_min m (haversineDistance p s)) (haversineDistance p s)"
    by (rule Suc.IH)
  also have "\<dots> = Math_min m (haversineDistance p s)"
    by (cases m; cases "haversineDistance p s") simp_all
  finally show ?case .
qed

theorem tolerance_boundary_witness:
  "minDistance \<lparr>lat = 48, lng = 11\<rparr>
     (interpolateRoute \<lparr>lat = 48, lng = 11\<rparr> \<lparr>lat = 48, lng = 11\<rparr> (Some 20)) Infinity = Fin 0 \<and>
   compliancePercent (calculateRouteCompliance [\<lparr>lat = 48, lng = 11\<rparr>]
     \<lparr>lat = 48, lng = 11\<rparr> \<lparr>lat = 48, lng = 11\<rparr> (Some 0)) = 100 \<and>
   compliancePercent (calculateRouteCompliance [\<lparr>lat = 48, lng = 11\<rparr>]
     \<lparr>lat = 48, lng = 11\<rparr> \<lparr>lat = 48, lng = 11\<rparr> (Some (- 1))) = 0"
proof -
  let ?s = "\<lparr>lat = 48, lng = 11\<rparr>"
  have "interpolateRoute ?s ?s (Some 20) = replicate (Suc (Suc 19)) ?s"
    by (simp add: interpolateRoute_same)
  then have m: "minDistance ?s (interpolateRoute ?s ?s (Some 20)) Infinity = Fin 0"
    by (simp only: minDistance_degenerate_route haversineDistance_same Math_min.simps)
  have lt: "(- 1 :: real) < 0"
    by simp
  show ?thesis
    using tolerance_boundary [of ?s ?s 0 "[]" ?s 0] m lt by blast
qed

section \<open>The client's distance\<close>

lemma atan2_sin_cos:
  assumes "0 \<le> x" "x \<le> pi / 2"
  shows "atan2 (sin x) (cos x) = x"
proof (cases "x = pi / 2")
  case True
  have "atan2 1 0 = pi / 2" by (simp add: atan2_def)
  then show ?thesis unfolding True by simp
next
  case False
  with assms have lt: "x < pi / 2" by simp
  with assms have c: "0 < cos x" by (intro cos_gt_zero_pi) simp_all
  have "arctan (sin x / cos x) = x"
    using arctan_tan [of x] assms lt by (simp add: tan_def)
  with c show ?thesis by (simp add: atan2_def)
qed

lemma calculateDistance_same_lng:
  assumes "\<bar>lat2 - lat1\<bar> \<le> 180"
  shows "calculateDistance lat1 lg lat2 lg = 6371000 * (\<bar>lat2 - lat1\<bar> * (pi / 180))"
proof -
  define x where "x = \<bar>lat2 - lat1\<bar> * (pi / 180) / 2"
  have x0: "0 \<le> x" by (simp add: x_def)
  have "\<bar>lat2 - lat1\<bar> * pi \<le> 180 * pi"
    using assms by (intro mult_right_mono) simp_all
  then have x1: "x \<le> pi / 2" by (simp add: x_def)
  have sq: "(sin ((lat2 - lat1) * (pi / 180) / 2))\<^sup>2 = (sin x)\<^sup>2"
  proof (cases "0 \<le> lat2 - lat1")
    case True
    then show ?thesis by (simp add: x_def)
  next
    case False
    then have "(lat2 - lat1) * (pi / 180) / 2 = - x" by (simp add: x_def field_simps)
    then show ?thesis by simp
  qed
  have a: "calculateDistance_a lat1 lg lat2 lg = (sin x)\<^sup>2"
    unfolding calculateDistance_a_def Let_def sq by simp
  have s: "0 \<le> sin x" using x0 x1 by (intro sin_ge_zero) (simp_all add: field_simps)
  have c: "0 \<le> cos x" using x0 x1 by (intro cos_ge_zero) simp_all
  have "1 - (sin x)\<^sup>2 = (cos x)\<^sup>2"
    by (simp add: cos_squared_eq)
  then have "sqrt (1 - (sin x)\<^sup>2) = cos x" using c by simp
  moreover have "sqrt ((sin x)\<^sup>2) = sin x" using s by simp
  ultimately have "calculateDistance lat1 lg lat2 lg = 6371000 * 2 * x"
    unfolding calculateDistance_def Let_def a using atan2_sin_cos [OF x0 x1] by simp
  then show ?thesis by (simp add: x_def)
qed


section \<open>Stationary runs in the stop detector\<close>

lemma stopLoop_in_run:
  "stationary dthr (q # ps) \<Longrightarrow>
   stopLoop dLat dLng thr dthr (q # ps) (stops, Some s, pts) = (stops, Some s, pts @ ps)"
proof (induction ps arbitrary: q pts)
  case Nil
  then show ?case by simp
next
  case (Cons r ps)
  then show ?case by (simp add: stopStep_def)
qed

lemma stopLoop_run:
  assumes "stationary dthr (p # ps)" and "ps \<noteq> []"
  shows "stopLoop dLat dLng thr dthr (p # ps) (stops, None, []) = (stops, Some p, p # ps)"
proof -
  from assms(2) obtain q rest where ps: "ps = q # rest" by (cases ps) auto
  with assms(1) have "stationary dthr (q # rest)"
    and "calculateDistance (latitude p) (longitude p) (latitude q) (longitude q) < dthr"
    by simp_all
  then show ?thesis
    unfolding ps by (simp add: stopStep_def stopLoop_in_run)
qed

lemma detect_run:
  assumes "stationary dthr (p # ps)" and "ps \<noteq> []"
  shows "detectUnscheduledStops (p # ps) dLat dLng (Some thr) (Some dthr) =
           closeRun dLat dLng thr (Some p) (p # ps) []"
proof -
  from assms(2) have "\<not> length (p # ps) < 2" by (cases ps) simp_all
  then show ?thesis
    unfolding detectUnscheduledStops_def by (simp add: stopLoop_run [OF assms])
qed

lemma pi_ge_three: "3 \<le> pi"
  using sin_x_le_x [of "pi / 6"] by (simp add: sin_30)

lemma calculateDistance_near:
  assumes "\<bar>lat2 - lat1\<bar> \<le> 180" and "\<bar>lat2 - lat1\<bar> * 142000 < d"
  shows "calculateDistance lat1 lg lat2 lg < d"
proof -
  define x where "x = \<bar>lat2 - lat1\<bar>"
  have x0: "0 \<le> x" by (simp add: x_def)
  have "x * pi \<le> x * 4"
    using pi_less_4 x0 by (intro mult_left_mono) simp_all
  then have "6371000 * (x * (pi / 180)) \<le> x * 142000"
    using x0 by argo
  with assms(2) have "6371000 * (x * (pi / 180)) < d"
    unfolding x_def by argo
  moreover have "calculateDistance lat1 lg lat2 lg = 6371000 * (x * (pi / 180))"
    unfolding x_def by (rule calculateDistance_same_lng [OF assms(1)])
  ultimately show ?thesis
    by (simp only:)
qed

lemma calculateDistance_far:
  assumes "\<bar>lat2 - lat1\<bar> \<le> 180" and "d \<le> \<bar>lat2 - lat1\<bar> * 106000"
  shows "d \<le> calculateDistance lat1 lg lat2 lg"
proof -
  define x where "x = \<bar>lat2 - lat1\<bar>"
  have x0: "0 \<le> x" by (simp add: x_def)
  have "x * 3 \<le> x * pi"
    using pi_ge_three x0 by (intro mult_left_mono) simp_all
  then have "x * 106000 \<le> 6371000 * (x * (pi / 180))"
    using x0 by argo
  with assms(2) have "d \<le> 6371000 * (x * (pi / 180))"
    unfolding x_def by argo
  moreover have "calculateDistance lat1 lg lat2 lg = 6371000 * (x * (pi / 180))"
    unfolding x_def by (rule calculateDistance_same_lng [OF assms(1)])
  ultimately show ?thesis
    by (simp only:)
qed

lemma closeRun_None: "closeRun dLat dLng thr None pts stops = stops"
  by (simp add: closeRun_def)

lemma stopLoop_run_then_jump:
  "stationary dthr (q # ps) \<Longrightarrow>
   \<not> calculateDistance (latitude (last (q # ps))) (longitude (last (q # ps)))
        (latitude r) (longitude r) < dthr \<Longrightarrow>
   stopLoop dLat dLng thr dthr (q # ps @ [r]) (stops, Some s, pts) =
     (closeRun dLat dLng thr (Some s) (pts @ ps) stops, None, [])"
proof (induction ps arbitrary: q pts)
  case Nil
  then show ?case by (simp add: stopStep_def)
next
  case (Cons u ps)
  then show ?case by (simp add: stopStep_def)
qed

lemma Math_round_10: "Math_round 10 = 10"
proof -
  have "\<lfloor>(10::real) + 1 / 2\<rfloor> = 10" by linarith
  then show ?thesis by (simp add: Math_round_def)
qed

lemma detect_defaults:
  "detectUnscheduledStops track dLat dLng None None =
   detectUnscheduledStops track dLat dLng (Some 10) (Some 100)"
  by (simp add: detectUnscheduledStops_def)

lemma detect_run_then_jump:
  assumes "stationary dthr (p # ps)" and "ps \<noteq> []"
    and "\<not> calculateDistance (latitude (last ps)) (longitude (last ps))
           (latitude r) (longitude r) < dthr"
  shows "detectUnscheduledStops (p # ps @ [r]) dLat dLng (Some thr) (Some dthr) =
           closeRun dLat dLng thr (Some p) (p # ps) []"
proof -
  from assms(2) obtain q rest where ps: "ps = q # rest" by (cases ps) auto
  with assms(1) have near: "calculateDistance (latitude p) (longitude p) (latitude q) (longitude q) < dthr"
    and st: "stationary dthr (q # rest)"
    by simp_all
  have far: "\<not> calculateDistance (latitude (last (q # rest))) (longitude (last (q # rest)))
           (latitude r) (longitude r) < dthr"
    using assms(3) ps by simp
  have "stopLoop dLat dLng thr dthr (p # ps @ [r]) ([], None, []) =
          stopLoop dLat dLng thr dthr (q # rest @ [r]) ([], Some p, [p, q])"
    using near by (simp add: ps stopStep_def)
  also have "\<dots> = (closeRun dLat dLng thr (Some p) ([p, q] @ rest) [], None, [])"
    by (rule stopLoop_run_then_jump [OF st far])
  finally have loop: "stopLoop dLat dLng thr dthr (p # ps @ [r]) ([], None, []) =
      (closeRun dLat dLng thr (Some p) (p # ps) [], None, [])"
    by (simp add: ps)
  have "\<not> length (p # ps @ [r]) < 2" by simp
  then show ?thesis
    unfolding detectUnscheduledStops_def Let_def option.case loop
    by (simp add: closeRun_None)
qed

lemma closeRun_run:
  assumes "ps \<noteq> []"
  shows "closeRun dLat dLng thr (Some p) (p # ps) [] =
    (if thr \<le> real_of_int (timestamp (last ps) - timestamp p) / 60000 \<and>
        \<not> isAtDestination p dLat dLng
     then [\<lparr>stop_latitude = latitude p, stop_longitude = longitude p, startTime = timestamp p,
            duration = Math_round (real_of_int (timestamp (last ps) - timestamp p) / 60000)\<rparr>]
     else [])"
  using assms by (simp add: closeRun_def Let_def)

lemma isAtDestination_zero:
  "a = 0 \<or> b = 0 \<Longrightarrow> isAtDestination p (Some a) (Some b) = isAtDestination p None None"
  by (auto simp: isAtDestination_def)

lemma closeRun_zero:
  "a = 0 \<or> b = 0 \<Longrightarrow>
   closeRun (Some a) (Some b) thr start pts stops = closeRun None None thr start pts stops"
  by (simp add: closeRun_def isAtDestination_zero Let_def split: option.split)

lemma stopStep_zero:
  "a = 0 \<or> b = 0 \<Longrightarrow>
   stopStep (Some a) (Some b) thr dthr prev cur st = stopStep None None thr dthr prev cur st"
  by (simp add: stopStep_def closeRun_zero split: prod.split)

lemma stopLoop_zero:
  "a = 0 \<or> b = 0 \<Longrightarrow>
   stopLoop (Some a) (Some b) thr dthr track st = stopLoop None None thr dthr track st"
  by (induction "Some a" "Some b" thr dthr track st rule: stopLoop.induct)
     (simp_all add: stopStep_zero)

lemma detect_zero:
  "a = 0 \<or> b = 0 \<Longrightarrow>
   detectUnscheduledStops track (Some a) (Some b) t d = detectUnscheduledStops track None None t d"
  by (simp add: detectUnscheduledStops_def stopLoop_zero closeRun_zero Let_def split: prod.split)

lemma Math_round_15: "Math_round 15 = 15"
proof -
  have "\<lfloor>(15::real) + 1 / 2\<rfloor> = 15" by linarith
  then show ?thesis by (simp add: Math_round_def)
qed

text \<open>
  C1, as the code has it: for a track of 3 GPS samples taken 5 minutes apart, each less than
  100 m from the one before (so also when all are within 50 m of each other), followed by a
  jump of at least 100 m (so also of 1 km), \<open>detectUnscheduledStops(track, null, 10, 100)\<close>
  returns exactly one stop, with the first sample's coordinates and timestamp and duration 10:
  a run that lasts exactly the threshold is reported, since the test is
  \<open>duration >= stopThresholdMinutes\<close>.
\<close>

theorem duration_at_threshold_is_reported:
  assumes "calculateDistance (latitude p0) (longitude p0) (latitude p1) (longitude p1) < 100"
    and "calculateDistance (latitude p1) (longitude p1) (latitude p2) (longitude p2) < 100"
    and "100 \<le> calculateDistance (latitude p2) (longitude p2) (latitude p3) (longitude p3)"
    and "timestamp p1 = timestamp p0 + 300000"
    and "timestamp p2 = timestamp p1 + 300000"
  shows "detectUnscheduledStops [p0, p1, p2, p3] None None (Some 10) (Some 100) =
           [\<lparr>stop_latitude = latitude p0, stop_longitude = longitude p0,
             startTime = timestamp p0, duration = 10\<rparr>]"
proof -
  have st: "stationary 100 (p0 # [p1, p2])"
    using assms(1,2) by simp
  have far: "\<not> calculateDistance (latitude (last [p1, p2])) (longitude (last [p1, p2]))
        (latitude p3) (longitude p3) < 100"
    using assms(3) by simp
  have "detectUnscheduledStops (p0 # [p1, p2] @ [p3]) None None (Some 10) (Some 100) =
          closeRun None None 10 (Some p0) (p0 # [p1, p2]) []"
    by (rule detect_run_then_jump [OF st _ far]) simp
  moreover have "real_of_int (timestamp p2 - timestamp p0) / 60000 = 10"
    using assms(4,5) by simp
  ultimately show ?thesis
    by (simp add: closeRun_run isAtDestination_def Math_round_10)
qed

theorem duration_at_threshold_is_reported_witness:
  "calculateDistance 48 11 48.0001 11 < 100 \<and>
   calculateDistance 48.0001 11 48.0002 11 < 100 \<and>
   100 \<le> calculateDistance 48.0002 11 48.0102 11 \<and>
   detectUnscheduledStops
     [\<lparr>latitude = 48, longitude = 11, timestamp = 1700000000000\<rparr>,
      \<lparr>latitude = 48.0001, longitude = 11, timestamp = 1700000300000\<rparr>,
      \<lparr>latitude = 48.0002, longitude = 11, timestamp = 1700000600000\<rparr>,
      \<lparr>latitude = 48.0102, longitude = 11, timestamp = 1700000900000\<rparr>]
     None None (Some 10) (Some 100) =
   [\<lparr>stop_latitude = 48, stop_longitude = 11, startTime = 1700000000000, duration = 10\<rparr>]"
proof -
  have d1: "calculateDistance 48 11 48.0001 11 < 100"
    by (rule calculateDistance_near) simp_all
  have d2: "calculateDistance 48.0001 11 48.0002 11 < 100"
    by (rule calculateDistance_near) simp_all
  have d3: "100 \<le> calculateDistance 48.0002 11 48.0102 11"
    by (rule calculateDistance_far) simp_all
  show ?thesis
    using d1 d2 d3
      duration_at_threshold_is_reported
        [of "\<lparr>latitude = 48, longitude = 11, timestamp = 1700000000000\<rparr>"
            "\<lparr>latitude = 48.0001, longitude = 11, timestamp = 1700000300000\<rparr>"
            "\<lparr>latitude = 48.0002, longitude = 11, timestamp = 1700000600000\<rparr>"
            "\<lparr>latitude = 48.0102, longitude = 11, timestamp = 1700000900000\<rparr>"]
    by simp
qed

text \<open>
  C1 as stated (the result is the empty list) fails on this track: three samples 5 minutes
  apart within 50 m of each other, then a jump of more than 1 km.
\<close>

theorem detect_three_samples_then_jump_counterexample:
  "calculateDistance 10 20 10.0001 20 < 50 \<and>
   calculateDistance 10.0001 20 10.0002 20 < 50 \<and>
   calculateDistance 10 20 10.0002 20 < 50 \<and>
   1000 \<le> calculateDistance 10.0002 20 10.0102 20 \<and>
   detectUnscheduledStops
     [\<lparr>latitude = 10, longitude = 20, timestamp = 0\<rparr>,
      \<lparr>latitude = 10.0001, longitude = 20, timestamp = 300000\<rparr>,
      \<lparr>latitude = 10.0002, longitude = 20, timestamp = 600000\<rparr>,
      \<lparr>latitude = 10.0102, longitude = 20, timestamp = 900000\<rparr>]
     None None (Some 10) (Some 100) \<noteq> []"
proof -
  let ?p0 = "\<lparr>latitude = 10, longitude = 20, timestamp = 0\<rparr>"
  let ?p1 = "\<lparr>latitude = 10.0001, longitude = 20, timestamp = 300000\<rparr>"
  let ?p2 = "\<lparr>latitude = 10.0002, longitude = 20, timestamp = 600000\<rparr>"
  let ?p3 = "\<lparr>latitude = 10.0102, longitude = 20, timestamp = 900000\<rparr>"
  have d1: "calculateDistance 10 20 10.0001 20 < 50"
    by (rule calculateDistance_near) simp_all
  have d2: "calculateDistance 10.0001 20 10.0002 20 < 50"
    by (rule calculateDistance_near) simp_all
  have d3: "calculateDistance 10 20 10.0002 20 < 50"
    by (rule calculateDistance_near) simp_all
  have d4: "1000 \<le> calculateDistance 10.0002 20 10.0102 20"
    by (rule calculateDistance_far) simp_all
  have st: "stationary 100 (?p0 # [?p1, ?p2])"
    using d1 d2 by simp
  have far: "\<not> calculateDistance (latitude (last [?p1, ?p2])) (longitude (last [?p1, ?p2]))
        (latitude ?p3) (longitude ?p3) < 100"
    using d4 by simp
  have "detectUnscheduledStops (?p0 # [?p1, ?p2] @ [?p3]) None None (Some 10) (Some 100) =
          closeRun None None 10 (Some ?p0) (?p0 # [?p1, ?p2]) []"
    by (rule detect_run_then_jump [OF st _ far]) simp
  then have "detectUnscheduledStops [?p0, ?p1, ?p2, ?p3] None None (Some 10) (Some 100) \<noteq> []"
    by (simp add: closeRun_run isAtDestination_def)
  with d1 d2 d3 d4 show ?thesis
    by blast
qed

text \<open>
  C5: empty input is handled with a default and never an error:
  \<open>calculateRouteCompliance\<close> with an empty \<open>actualPath\<close> returns
  \<open>compliancePercent\<close> 100, \<open>maxDeviation\<close> 0 and \<open>averageDeviation\<close> 0, and
  \<open>detectUnscheduledStops\<close> on a track with fewer than 2 samples (none, or one) returns
  the empty list. Both functions are total and have no error value.
\<close>

theorem empty_input_defaults:
  "calculateRouteCompliance [] expectedStart expectedEnd tol =
     \<lparr>compliancePercent = 100, maxDeviation = Fin 0, averageDeviation = Fin 0\<rparr> \<and>
   detectUnscheduledStops [] dLat dLng thr dthr = [] \<and>
   detectUnscheduledStops [p] dLat dLng thr dthr = []"
  by (simp add: calculateRouteCompliance_def detectUnscheduledStops_def)

text \<open>
  C6, as the code has it: a 15-minute stationary run (consecutive samples within the distance
  threshold) whose first sample is within 200 m of the supplied destination produces no stop,
  provided the destination's latitude and longitude are both non-zero; the same run with its
  first sample 200 m or more (so also 1 km) from the destination produces exactly one stop,
  with duration 15 and the first sample's coordinates and timestamp.
\<close>

theorem stationary_run_and_destination:
  assumes "stationary 100 (p # ps)" and "ps \<noteq> []"
    and "timestamp (last ps) - timestamp p = 900000"
  shows "(a \<noteq> 0 \<and> b \<noteq> 0 \<and> calculateDistance (latitude p) (longitude p) a b < 200 \<longrightarrow>
            detectUnscheduledStops (p # ps) (Some a) (Some b) None None = []) \<and>
         (200 \<le> calculateDistance (latitude p) (longitude p) a' b' \<longrightarrow>
            detectUnscheduledStops (p # ps) (Some a') (Some b') None None =
              [\<lparr>stop_latitude = latitude p, stop_longitude = longitude p,
                startTime = timestamp p, duration = 15\<rparr>])"
proof -
  have run: "detectUnscheduledStops (p # ps) dLat dLng None None =
               closeRun dLat dLng 10 (Some p) (p # ps) []" for dLat dLng
    unfolding detect_defaults by (rule detect_run [OF assms(1,2)])
  have dur: "real_of_int (timestamp (last ps) - timestamp p) / 60000 = 15"
    by (simp add: assms(3))
  show ?thesis
    unfolding run closeRun_run [OF assms(2)] dur
    by (simp add: isAtDestination_def Math_round_15)
qed

theorem stationary_run_and_destination_witness:
  "stationary 100
     [\<lparr>latitude = 48, longitude = 11, timestamp = 1700000000000\<rparr>,
      \<lparr>latitude = 48.0001, longitude = 11, timestamp = 1700000300000\<rparr>,
      \<lparr>latitude = 48.0002, longitude = 11, timestamp = 1700000600000\<rparr>,
      \<lparr>latitude = 48.0003, longitude = 11, timestamp = 1700000900000\<rparr>] \<and>
   calculateDistance 48 11 48.001 11 < 200 \<and>
   detectUnscheduledStops
     [\<lparr>latitude = 48, longitude = 11, timestamp = 1700000000000\<rparr>,
      \<lparr>latitude = 48.0001, longitude = 11, timestamp = 1700000300000\<rparr>,
      \<lparr>latitude = 48.0002, longitude = 11, timestamp = 1700000600000\<rparr>,
      \<lparr>latitude = 48.0003, longitude = 11, timestamp = 1700000900000\<rparr>]
     (Some 48.001) (Some 11) None None = [] \<and>
   1000 \<le> calculateDistance 48 11 48.01 11 \<and>
   detectUnscheduledStops
     [\<lparr>latitude = 48, longitude = 11, timestamp = 1700000000000\<rparr>,
      \<lparr>latitude = 48.0001, longitude = 11, timestamp = 1700000300000\<rparr>,
      \<lparr>latitude = 48.0002, longitude = 11, timestamp = 1700000600000\<rparr>,
      \<lparr>latitude = 48.0003, longitude = 11, timestamp = 1700000900000\<rparr>]
     (Some 48.01) (Some 11) None None =
   [\<lparr>stop_latitude = 48, stop_longitude = 11, startTime = 1700000000000, duration = 15\<rparr>]"
proof -
  let ?p0 = "\<lparr>latitude = 48, longitude = 11, timestamp = 1700000000000\<rparr>"
  let ?ps = "[\<lparr>latitude = 48.0001, longitude = 11, timestamp = 1700000300000\<rparr>,
      \<lparr>latitude = 48.0002, longitude = 11, timestamp = 1700000600000\<rparr>,
      \<lparr>latitude = 48.0003, longitude = 11, timestamp = 1700000900000\<rparr>]"
  have d1: "calculateDistance 48 11 48.0001 11 < 100"
    by (rule calculateDistance_near) simp_all
  have d2: "calculateDistance 48.0001 11 48.0002 11 < 100"
    by (rule calculateDistance_near) simp_all
  have d3: "calculateDistance 48.0002 11 48.0003 11 < 100"
    by (rule calculateDistance_near) simp_all
  have st: "stationary 100 (?p0 # ?ps)"
    using d1 d2 d3 by simp
  have near: "calculateDistance 48 11 48.001 11 < 200"
    by (rule calculateDistance_near) simp_all
  have far: "1000 \<le> calculateDistance 48 11 48.01 11"
    by (rule calculateDistance_far) simp_all
  have ne: "?ps \<noteq> []" by simp
  have ts: "timestamp (last ?ps) - timestamp ?p0 = 900000" by simp
  show ?thesis
    using stationary_run_and_destination [OF st ne ts, of "48.001" 11 "48.01" 11] st near far
    by simp
qed

text \<open>
  C6 as stated fails for a destination on the equator: this 15-minute run is about 55 m from
  the destination \<open>(0, 32.5)\<close> and is reported all the same.
\<close>

theorem destination_on_equator_counterexample:
  "stationary 100
     [\<lparr>latitude = 0.0005, longitude = 32.5, timestamp = 0\<rparr>,
      \<lparr>latitude = 0.0006, longitude = 32.5, timestamp = 300000\<rparr>,
      \<lparr>latitude = 0.0005, longitude = 32.5, timestamp = 600000\<rparr>,
      \<lparr>latitude = 0.0006, longitude = 32.5, timestamp = 900000\<rparr>] \<and>
   calculateDistance 0.0005 32.5 0 32.5 < 200 \<and>
   detectUnscheduledStops
     [\<lparr>latitude = 0.0005, longitude = 32.5, timestamp = 0\<rparr>,
      \<lparr>latitude = 0.0006, longitude = 32.5, timestamp = 300000\<rparr>,
      \<lparr>latitude = 0.0005, longitude = 32.5, timestamp = 600000\<rparr>,
      \<lparr>latitude = 0.0006, longitude = 32.5, timestamp = 900000\<rparr>]
     (Some 0) (Some 32.5) None None \<noteq> []"
proof -
  let ?p0 = "\<lparr>latitude = 0.0005, longitude = 32.5, timestamp = 0\<rparr>"
  let ?ps = "[\<lparr>latitude = 0.0006, longitude = 32.5, timestamp = 300000\<rparr>,
      \<lparr>latitude = 0.0005, longitude = 32.5, timestamp = 600000\<rparr>,
      \<lparr>latitude = 0.0006, longitude = 32.5, timestamp = 900000\<rparr>]"
  have d1: "calculateDistance 0.0005 32.5 0.0006 32.5 < 100"
    by (rule calculateDistance_near) simp_all
  have d2: "calculateDistance 0.0006 32.5 0.0005 32.5 < 100"
    by (rule calculateDistance_near) simp_all
  have st: "stationary 100 (?p0 # ?ps)"
    using d1 d2 by simp
  have near: "calculateDistance 0.0005 32.5 0 32.5 < 200"
    by (rule calculateDistance_near) simp_all
  have "detectUnscheduledStops (?p0 # ?ps) (Some 0) (Some 32.5) None None =
          closeRun (Some 0) (Some 32.5) 10 (Some ?p0) (?p0 # ?ps) []"
    unfolding detect_defaults by (rule detect_run [OF st]) simp
  then have "detectUnscheduledStops (?p0 # ?ps) (Some 0) (Some 32.5) None None \<noteq> []"
    by (simp add: closeRun_run isAtDestination_def)
  with st near show ?thesis
    by blast
qed

text \<open>
  C10: if the supplied destination has latitude 0 or longitude 0, the destination exclusion
  is never applied: the result is that of a call without destination, and a stationary run
  that reaches the duration threshold is reported wherever it is, also within 200 m of
  that destination.
\<close>

theorem zero_coordinate_destination_ignored:
  assumes "a = 0 \<or> b = 0"
  shows "detectUnscheduledStops track (Some a) (Some b) t d =
           detectUnscheduledStops track None None t d \<and>
         (stationary dthr (p # ps) \<and> ps \<noteq> [] \<and>
          thr \<le> real_of_int (timestamp (last ps) - timestamp p) / 60000 \<longrightarrow>
          detectUnscheduledStops (p # ps) (Some a) (Some b) (Some thr) (Some dthr) =
            [\<lparr>stop_latitude = latitude p, stop_longitude = longitude p, startTime = timestamp p,
              duration = Math_round (real_of_int (timestamp (last ps) - timestamp p) / 60000)\<rparr>])"
proof (intro conjI impI)
  show "detectUnscheduledStops track (Some a) (Some b) t d =
          detectUnscheduledStops track None None t d"
    by (rule detect_zero [OF assms])
next
  assume h: "stationary dthr (p # ps) \<and> ps \<noteq> [] \<and>
          thr \<le> real_of_int (timestamp (last ps) - timestamp p) / 60000"
  then have "detectUnscheduledStops (p # ps) (Some a) (Some b) (Some thr) (Some dthr) =
      closeRun (Some a) (Some b) thr (Some p) (p # ps) []"
    by (intro detect_run) simp_all
  with h assms show "detectUnscheduledStops (p # ps) (Some a) (Some b) (Some thr) (Some dthr) =
            [\<lparr>stop_latitude = latitude p, stop_longitude = longitude p, startTime = timestamp p,
              duration = Math_round (real_of_int (timestamp (last ps) - timestamp p) / 60000)\<rparr>]"
    by (auto simp add: closeRun_run isAtDestination_def)
qed

theorem zero_coordinate_destination_ignored_witness:
  "calculateDistance 51.4775 0 51.4779 0 < 200 \<and>
   stationary 100
     [\<lparr>latitude = 51.4775, longitude = 0, timestamp = 1700000000000\<rparr>,
      \<lparr>latitude = 51.4776, longitude = 0, timestamp = 1700000720000\<rparr>] \<and>
   detectUnscheduledStops
     [\<lparr>latitude = 51.4775, longitude = 0, timestamp = 1700000000000\<rparr>,
      \<lparr>latitude = 51.4776, longitude = 0, timestamp = 1700000720000\<rparr>]
     (Some 51.4779) (Some 0) (Some 10) (Some 100) =
   [\<lparr>stop_latitude = 51.4775, stop_longitude = 0, startTime = 1700000000000, duration = 12\<rparr>]"
proof -
  let ?p = "\<lparr>latitude = 51.4775, longitude = 0, timestamp = 1700000000000\<rparr>"
  let ?q = "\<lparr>latitude = 51.4776, longitude = 0, timestamp = 1700000720000\<rparr>"
  have near: "calculateDistance 51.4775 0 51.4779 0 < 200"
    by (rule calculateDistance_near) simp_all
  have d1: "calculateDistance 51.4775 0 51.4776 0 < 100"
    by (rule calculateDistance_near) simp_all
  have st: "stationary 100 (?p # [?q])"
    using d1 by simp
  have "\<lfloor>(12::real) + 1 / 2\<rfloor> = 12" by linarith
  then have r: "Math_round 12 = 12" by (simp add: Math_round_def)
  have z: "(51.4779::real) = 0 \<or> (0::real) = 0"
    by simp
  have hyp: "stationary 100 (?p # [?q]) \<and> [?q] \<noteq> [] \<and>
      10 \<le> real_of_int (timestamp (last [?q]) - timestamp ?p) / 60000"
    using st by simp
  have "detectUnscheduledStops (?p # [?q]) (Some 51.4779) (Some 0) (Some 10) (Some 100) =
      [\<lparr>stop_latitude = latitude ?p, stop_longitude = longitude ?p, startTime = timestamp ?p,
        duration = Math_round (real_of_int (timestamp (last [?q]) - timestamp ?p) / 60000)\<rparr>]"
    using zero_coordinate_destination_ignored [OF z] hyp by blast
  then show ?thesis
    using st near by (simp add: r)
qed


section \<open>The default number of points\<close>

text \<open>
  C2 as stated fails for the server's builder: without \<open>numPoints\<close> it returns 11
  waypoints, not 21.
\<close>

theorem default_numPoints_counterexample:
  "length (interpolateRoute \<lparr>lat = 0, lng = 0\<rparr> \<lparr>lat = 1, lng = 1\<rparr> None) \<noteq> 21"
  by (simp add: interpolateRoute_def)

text \<open>
  C2, as the code has it: the client's \<open>interpolatePlannedRoute\<close> defaults
  \<open>numPoints\<close> to 20 and returns 21 waypoints when called without it; the server's
  \<open>interpolateRoute\<close> defaults it to 10 and returns 11 waypoints, and returns 21 when
  called with 20, as \<open>calculateRouteCompliance\<close> calls it.
\<close>

theorem default_numPoints:
  "length (interpolatePlannedRoute startLat startLng endLat endLng None) = 21 \<and>
   length (interpolateRoute start end None) = 11 \<and>
   length (interpolateRoute start end (Some 20)) = 21"
  by (simp add: interpolatePlannedRoute_def interpolateRoute_def)

section \<open>The ends of the planned route in binary64\<close>

lemma f64_48: "f64 48 = 48"
  by (rule f64_representable [where k = "48 * 2 ^ 47" and e = 5]) (simp_all add: power_int_minus)

lemma f64_11: "f64 11 = 11"
  by (rule f64_representable [where k = "11 * 2 ^ 49" and e = 3]) (simp_all add: power_int_minus)

lemma f64_minus_37: "f64 (- 37) = - 37"
  by (rule f64_representable [where k = "- (37 * 2 ^ 47)" and e = 5]) (simp_all add: power_int_minus)

lemma f64_11_ulp: "f64 (11 + 1 / 2 ^ 49) = 11 + 1 / 2 ^ 49"
  by (rule f64_representable [where k = "11 * 2 ^ 49 + 1" and e = 3])
     (simp_all add: power_int_minus field_simps)

lemma f64_difference_rounds: "f64 (11 + 1 / 2 ^ 49 - 48) = - 37"
proof -
  define x :: real where "x = 11 + 1 / 2 ^ 49 - 48"
  have x0: "x \<noteq> 0" by (simp add: x_def)
  have ax: "\<bar>x\<bar> = 37 - 1 / 2 ^ 49" by (simp add: x_def)
  have "f64_exponent x = 5"
    by (rule f64_exponent_eq [OF x0]) (simp_all add: ax)
  then have ulp: "f64_ulp x = 1 / 2 ^ 47"
    by (simp add: f64_ulp_def power_int_minus inverse_eq_divide)
  have q: "x / (1 / 2 ^ 47) = of_int (- (37 * 2 ^ 47)) + 1 / 4"
    by (simp add: x_def)
  have fl: "\<lfloor>real_of_int (- (37 * 2 ^ 47)) + 1 / 4\<rfloor> = - (37 * 2 ^ 47)"
    by (rule floor_unique) simp_all
  have "round_half_even (x / (1 / 2 ^ 47)) = - (37 * 2 ^ 47)"
    unfolding q round_half_even_def Let_def fl by simp
  then have "f64 x = of_int (- (37 * 2 ^ 47)) * (1 / 2 ^ 47)"
    using x0 by (simp only: f64_def ulp if_False)
  then show ?thesis
    by (simp add: x_def)
qed

lemma hd_map_upt: "hd (map f [0..<n + 1]) = f 0"
  by (simp add: hd_map upt_conv_Cons del: upt_Suc)

lemma last_map_upt: "last (map f [0..<n + 1]) = f n"
  by (simp add: last_map)

lemma waypoint_f64_first:
  "waypoint_f64 s e n 0 = \<lparr>lat = f64 (lat s), lng = f64 (lng s)\<rparr>"
  by (simp add: waypoint_f64_def f64_0)

lemma waypoint_f64_last:
  "1 \<le> n \<Longrightarrow> waypoint_f64 s e n n =
     \<lparr>lat = f64 (lat s + f64 (lat e - lat s)), lng = f64 (lng s + f64 (lng e - lng s))\<rparr>"
  by (simp add: waypoint_f64_def f64_1 f64_idempotent)

lemma waypoint_first: "waypoint s e n 0 = s"
  by (simp add: waypoint_def Coordinate_eta)

lemma waypoint_last: "1 \<le> n \<Longrightarrow> waypoint s e n n = e"
  by (simp add: waypoint_def Coordinate_eta)

text \<open>
  C7, as the code has it: for all coordinates \<open>start\<close>, \<open>end\<close> and every
  \<open>numPoints = n \<ge> 1\<close>, \<open>interpolateRoute(start, end, n)\<close> returns exactly
  \<open>n + 1\<close> coordinates, the first equal to \<open>start\<close> exactly; the last is
  \<open>start + (end - start)\<close> as evaluated in binary64, which is \<open>end\<close> in exact
  arithmetic and can differ from \<open>end\<close> by a rounding error in doubles. The function is
  deterministic and pure: it is a function of its three arguments.
\<close>

theorem interpolateRoute_endpoints:
  assumes "1 \<le> n" and "f64 (lat s) = lat s" and "f64 (lng s) = lng s"
  shows "length (interpolateRoute_f64 s e (Some n)) = n + 1 \<and>
         hd (interpolateRoute_f64 s e (Some n)) = s \<and>
         last (interpolateRoute_f64 s e (Some n)) =
           \<lparr>lat = f64 (lat s + f64 (lat e - lat s)), lng = f64 (lng s + f64 (lng e - lng s))\<rparr> \<and>
         length (interpolateRoute s e (Some n)) = n + 1 \<and>
         hd (interpolateRoute s e (Some n)) = s \<and>
         last (interpolateRoute s e (Some n)) = e"
proof -
  have r64: "interpolateRoute_f64 s e (Some n) = map (waypoint_f64 s e n) [0..<n + 1]"
    by (simp only: interpolateRoute_f64_def Let_def option.case)
  have r: "interpolateRoute s e (Some n) = map (waypoint s e n) [0..<n + 1]"
    by (simp only: interpolateRoute_def Let_def option.case)
  have "hd (interpolateRoute_f64 s e (Some n)) = s"
    unfolding r64 hd_map_upt waypoint_f64_first by (simp add: assms(2,3) Coordinate_eta)
  moreover have "last (interpolateRoute_f64 s e (Some n)) =
      \<lparr>lat = f64 (lat s + f64 (lat e - lat s)), lng = f64 (lng s + f64 (lng e - lng s))\<rparr>"
    unfolding r64 last_map_upt by (rule waypoint_f64_last [OF assms(1)])
  moreover have "hd (interpolateRoute s e (Some n)) = s"
    unfolding r hd_map_upt by (rule waypoint_first)
  moreover have "last (interpolateRoute s e (Some n)) = e"
    unfolding r last_map_upt by (rule waypoint_last [OF assms(1)])
  moreover have "length (interpolateRoute_f64 s e (Some n)) = n + 1"
    "length (interpolateRoute s e (Some n)) = n + 1"
    unfolding r r64 by simp_all
  ultimately show ?thesis
    by blast
qed

theorem interpolateRoute_endpoints_witness:
  "(1::nat) \<le> 20 \<and> f64 48 = 48 \<and> f64 11 = 11 \<and>
   length (interpolateRoute_f64 \<lparr>lat = 48, lng = 11\<rparr> \<lparr>lat = 11, lng = 48\<rparr> (Some 20)) = 21 \<and>
   hd (interpolateRoute_f64 \<lparr>lat = 48, lng = 11\<rparr> \<lparr>lat = 11, lng = 48\<rparr> (Some 20)) =
     \<lparr>lat = 48, lng = 11\<rparr> \<and>
   last (interpolateRoute_f64 \<lparr>lat = 48, lng = 11\<rparr> \<lparr>lat = 11, lng = 48\<rparr> (Some 20)) =
     \<lparr>lat = f64 (48 + f64 (11 - 48)), lng = f64 (11 + f64 (48 - 11))\<rparr> \<and>
   length (interpolateRoute \<lparr>lat = 48, lng = 11\<rparr> \<lparr>lat = 11, lng = 48\<rparr> (Some 20)) = 21 \<and>
   hd (interpolateRoute \<lparr>lat = 48, lng = 11\<rparr> \<lparr>lat = 11, lng = 48\<rparr> (Some 20)) =
     \<lparr>lat = 48, lng = 11\<rparr> \<and>
   last (interpolateRoute \<lparr>lat = 48, lng = 11\<rparr> \<lparr>lat = 11, lng = 48\<rparr> (Some 20)) =
     \<lparr>lat = 11, lng = 48\<rparr>"
proof -
  have n: "(1::nat) \<le> 20" by simp
  have a: "f64 (lat \<lparr>lat = 48, lng = 11\<rparr>) = lat \<lparr>lat = 48, lng = 11\<rparr>"
    by (simp add: f64_48)
  have b: "f64 (lng \<lparr>lat = 48, lng = 11\<rparr>) = lng \<lparr>lat = 48, lng = 11\<rparr>"
    by (simp add: f64_11)
  show ?thesis
    using interpolateRoute_endpoints [OF n a b, of "\<lparr>lat = 11, lng = 48\<rparr>"] f64_48 f64_11
    by simp
qed

text \<open>
  C7 as stated (the last waypoint equals \<open>end\<close> exactly) fails in doubles: from latitude
  48 to latitude \<open>11 + 2 powi -49\<close> (the double next above 11) the difference rounds
  to \<open>-37\<close>, and the last waypoint has latitude 11.
\<close>

theorem last_waypoint_rounding_counterexample:
  "f64 48 = 48 \<and> f64 11 = 11 \<and> f64 (11 + 1 / 2 ^ 49) = 11 + 1 / 2 ^ 49 \<and>
   last (interpolateRoute_f64 \<lparr>lat = 48, lng = 11\<rparr> \<lparr>lat = 11 + 1 / 2 ^ 49, lng = 11\<rparr> (Some 20)) =
     \<lparr>lat = 11, lng = 11\<rparr> \<and>
   last (interpolateRoute_f64 \<lparr>lat = 48, lng = 11\<rparr> \<lparr>lat = 11 + 1 / 2 ^ 49, lng = 11\<rparr> (Some 20)) \<noteq>
     \<lparr>lat = 11 + 1 / 2 ^ 49, lng = 11\<rparr>"
proof -
  let ?s = "\<lparr>lat = 48, lng = 11\<rparr>"
  let ?e = "\<lparr>lat = 11 + 1 / 2 ^ 49, lng = 11\<rparr>"
  have "interpolateRoute_f64 ?s ?e (Some 20) = map (waypoint_f64 ?s ?e 20) [0..<20 + 1]"
    by (simp only: interpolateRoute_f64_def Let_def option.case)
  then have "last (interpolateRoute_f64 ?s ?e (Some 20)) = waypoint_f64 ?s ?e 20 20"
    by (simp only: last_map_upt)
  also have "\<dots> = \<lparr>lat = f64 (48 + f64 (11 + 1 / 2 ^ 49 - 48)), lng = f64 (11 + f64 (11 - 11))\<rparr>"
    by (simp add: waypoint_f64_last)
  also have "\<dots> = \<lparr>lat = 11, lng = 11\<rparr>"
    unfolding f64_difference_rounds by (simp add: f64_11 f64_0)
  finally have l: "last (interpolateRoute_f64 ?s ?e (Some 20)) = \<lparr>lat = 11, lng = 11\<rparr>" .
  have "\<lparr>lat = 11, lng = 11\<rparr> \<noteq> ?e"
    by simp
  with l f64_48 f64_11 f64_11_ulp show ?thesis
    by simp
qed

end
